theory Spec2Isabelle
  imports Main "HOL-Library.AList" "HOL-Library.Char_ord" "HOL-Library.List_Lexorder"
    "HOL-Library.Product_Lexorder"
begin

section \<open>Python values shared by the modules\<close>

text \<open>
  Strings are \<open>char list\<close>. The source works on Python \<open>str\<close>; the model covers ASCII
  text, on which Python's Unicode-aware classes (\<open>\d\<close>, \<open>str.isspace\<close>, the casing of
  \<open>str.title\<close>) are the ones written out below. Bytes above 127 are treated as
  characters that are neither digits, nor whitespace, nor letters.

  Exceptions are values: \<open>Inl e\<close> is "the call raised \<open>e\<close>". A \<open>py_error\<close> is an
  instance of Python's class \<open>Exception\<close>, which is what \<open>except Exception\<close> catches.

  A dict with string keys and values is an association list in insertion order.
\<close>

type_synonym py_dict = "(string \<times> string) list"

datatype py_error =
    KeyError string
  | TypeError string
  | TransportError string
  | JSONDecodeError string
  | RuntimeError string

text \<open>\<open>str(e)\<close>: the description an f-string or \<open>str()\<close> prints for the exception.
  \<open>str(KeyError('url'))\<close> is the repr of the key, quotes included.\<close>

fun str_of_error :: "py_error \<Rightarrow> string" where
  "str_of_error (KeyError k) = CHR 0x27 # k @ [CHR 0x27]"
| "str_of_error (TypeError m) = m"
| "str_of_error (TransportError m) = m"
| "str_of_error (JSONDecodeError m) = m"
| "str_of_error (RuntimeError m) = m"

section \<open>utils/logger.py: the rewrite collaborator\<close>

text \<open>
  \<open>GEN_API_KEY = os.getenv("GENAI_API_KEY")\<close> is \<open>None\<close> or a string; \<open>not GEN_API_KEY\<close>
  holds for \<open>None\<close> and for the empty string. The call \<open>model.generate_content(prompt)\<close>
  of the external library is a parameter: it returns the response text or raises.
\<close>

definition absent_key :: "string option \<Rightarrow> bool" where
  "absent_key k = (case k of None \<Rightarrow> True | Some s \<Rightarrow> s = [])"

text \<open>\<open>str(max_words)\<close> for a non-negative integer budget.\<close>

fun digit_char :: "nat \<Rightarrow> char" where
  "digit_char n = char_of (48 + n mod 10)"

function str_of_nat :: "nat \<Rightarrow> string" where
  "str_of_nat n = (if n < 10 then [digit_char n] else str_of_nat (n div 10) @ [digit_char n])"
  by pat_completeness auto
termination
  by (relation "measure id") auto

definition prompt_of :: "string \<Rightarrow> nat \<Rightarrow> string" where
  "prompt_of txt max_words =
     [CHR 0x0A] @ ''Rewrite the following article in simple English, max '' @ str_of_nat max_words
       @ '' words.'' @ [CHR 0x0A] @ ''Add 3-5 bullet points summary at top.'' @ [CHR 0x0A]
       @ ''Keep HTML clean.'' @ [CHR 0x0A, CHR 0x0A] @ txt @ [CHR 0x0A]"

definition rewrite_content_gemini ::
  "string option \<Rightarrow> (string \<Rightarrow> py_error + string) \<Rightarrow> string \<Rightarrow> nat \<Rightarrow> py_error + string" where
  "rewrite_content_gemini GEN_API_KEY generate_content txt max_words =
     (if absent_key GEN_API_KEY then Inr txt
      else generate_content (prompt_of txt max_words))"

section \<open>app/scraper/sitemap.py: sitemap discovery\<close>

subsection \<open>String operations of the Python library\<close>

definition is_digit :: "char \<Rightarrow> bool" where
  "is_digit c = (48 \<le> (of_char c :: nat) \<and> (of_char c :: nat) \<le> 57)"

definition is_space :: "char \<Rightarrow> bool" where
  "is_space c = (let n = (of_char c :: nat) in (9 \<le> n \<and> n \<le> 13) \<or> (28 \<le> n \<and> n \<le> 32))"

definition is_lower :: "char \<Rightarrow> bool" where
  "is_lower c = (97 \<le> (of_char c :: nat) \<and> (of_char c :: nat) \<le> 122)"

definition is_upper :: "char \<Rightarrow> bool" where
  "is_upper c = (65 \<le> (of_char c :: nat) \<and> (of_char c :: nat) \<le> 90)"

definition to_upper :: "char \<Rightarrow> char" where
  "to_upper c = (if is_lower c then char_of ((of_char c :: nat) - 32) else c)"

definition to_lower :: "char \<Rightarrow> char" where
  "to_lower c = (if is_upper c then char_of ((of_char c :: nat) + 32) else c)"

text \<open>\<open>s.strip()\<close>\<close>

definition strip :: "string \<Rightarrow> string" where
  "strip s = rev (dropWhile is_space (rev (dropWhile is_space s)))"

text \<open>\<open>s.split(sep)\<close> for a one-character separator: never the empty list.\<close>

fun split_on :: "char \<Rightarrow> string \<Rightarrow> string list" where
  "split_on sep [] = [[]]"
| "split_on sep (c # cs) =
     (if c = sep then [] # split_on sep cs
      else (case split_on sep cs of
              [] \<Rightarrow> [[c]]
            | w # ws \<Rightarrow> (c # w) # ws))"

text \<open>\<open>s.replace(a, b)\<close> for one-character \<open>a\<close> and \<open>b\<close>.\<close>

definition replace :: "char \<Rightarrow> char \<Rightarrow> string \<Rightarrow> string" where
  "replace a b s = map (\<lambda>c. if c = a then b else c) s"

text \<open>\<open>s.title()\<close>: a letter that follows a letter is lower-cased, any other letter is
  upper-cased; the flag is "the previous character is cased".\<close>

fun title_from :: "bool \<Rightarrow> string \<Rightarrow> string" where
  "title_from prev [] = []"
| "title_from prev (c # cs) =
     (if prev then to_lower c else to_upper c) # title_from (is_lower c \<or> is_upper c) cs"

definition title :: "string \<Rightarrow> string" where
  "title s = title_from False s"

text \<open>\<open>int(s)\<close> on a string of decimal digits; leading zeros are allowed, and the
  interpreter's limit on the length of the string is left out.\<close>

definition int_of_digits :: "string \<Rightarrow> nat" where
  "int_of_digits ds = foldl (\<lambda>n c. 10 * n + ((of_char c :: nat) - 48)) 0 ds"

subsection \<open>\<open>POST_PATTERN = re.compile(r"(post|article|news)(-sitemap)?(\d*)\.xml$")\<close>\<close>

text \<open>\<open>(\d*)\.xml$\<close> at the head of \<open>s\<close>: the digits are taken greedily (giving one back
  never helps, the next character must be the dot); \<open>$\<close> is the end of the string or the
  position before a final newline. The result is group 3.\<close>

definition digits_xml_end :: "string \<Rightarrow> string option" where
  "digits_xml_end s =
     (let ds = takeWhile is_digit s; r = dropWhile is_digit s
      in if r = ''.xml'' \<or> r = ''.xml'' @ [CHR 0x0A] then Some ds else None)"

text \<open>\<open>(-sitemap)?(\d*)\.xml$\<close>: the optional group is tried first, then skipped.\<close>

definition opt_sitemap_rest :: "string \<Rightarrow> string option" where
  "opt_sitemap_rest s =
     (case (if take 8 s = ''-sitemap'' then digits_xml_end (drop 8 s) else None) of
        Some g \<Rightarrow> Some g
      | None \<Rightarrow> digits_xml_end s)"

text \<open>The alternation \<open>(post|article|news)\<close>, tried left to right at the head of \<open>s\<close>.\<close>

fun match_words :: "string list \<Rightarrow> string \<Rightarrow> string option" where
  "match_words [] s = None"
| "match_words (w # ws) s =
     (case (if take (length w) s = w then opt_sitemap_rest (drop (length w) s) else None) of
        Some g \<Rightarrow> Some g
      | None \<Rightarrow> match_words ws s)"

definition match_here :: "string \<Rightarrow> string option" where
  "match_here s = match_words [''post'', ''article'', ''news''] s"

text \<open>\<open>POST_PATTERN.search(loc)\<close>: the leftmost start position that matches;
  \<open>Some g\<close> is a match whose group 3 is \<open>g\<close>.\<close>

fun search :: "string \<Rightarrow> string option" where
  "search [] = match_here []"
| "search (c # cs) =
     (case match_here (c # cs) of
        Some g \<Rightarrow> Some g
      | None \<Rightarrow> search cs)"

text \<open>The pattern in words: the string ends, up to one final newline, with \<open>post\<close>,
  \<open>article\<close> or \<open>news\<close>, an optional \<open>-sitemap\<close>, a run \<open>g\<close> of digits and \<open>.xml\<close>.
  This is what \<open>search\<close> is compared with below.\<close>

definition post_pattern :: "string \<Rightarrow> string \<Rightarrow> bool" where
  "post_pattern s g \<longleftrightarrow>
     (\<exists>pre w opt nl. s = pre @ w @ opt @ g @ ''.xml'' @ nl
        \<and> w \<in> {''post'', ''article'', ''news''} \<and> opt \<in> {[], ''-sitemap''}
        \<and> (\<forall>c \<in> set g. is_digit c) \<and> nl \<in> {[], [CHR 0x0A]})"

subsection \<open>fetch and discover_latest_from_sitemap\<close>

record response =
  status_code :: nat
  body :: string

text \<open>\<open>client.get\<close> of httpx is a parameter: it answers or raises (connection refused,
  timeout, invalid URL).\<close>

type_synonym http_get = "string \<Rightarrow> py_error + response"

definition fetch :: "http_get \<Rightarrow> string \<Rightarrow> py_error + string option" where
  "fetch client_get url =
     (case client_get url of
        Inl e \<Rightarrow> Inl e
      | Inr r \<Rightarrow> if status_code r = 200 then Inr (Some (body r)) else Inr None)"

text \<open>\<open>int(m.group(3) or 1)\<close>: the empty group is falsy, so it counts as 1.\<close>

definition num_of_group :: "string \<Rightarrow> nat" where
  "num_of_group g = (if g = [] then 1 else int_of_digits g)"

text \<open>The loop over \<open>sitemap_tags\<close>: one candidate \<open>(num, loc)\<close> per matching tag.\<close>

fun collect_candidates :: "string list \<Rightarrow> (nat \<times> string) list" where
  "collect_candidates [] = []"
| "collect_candidates (tag_text # tags) =
     (let loc = strip tag_text
      in case search loc of
           Some g \<Rightarrow> (num_of_group g, loc) # collect_candidates tags
         | None \<Rightarrow> collect_candidates tags)"

text \<open>\<open>candidates.sort(reverse=True)\<close>: tuples compare lexicographically, numbers first,
  then the strings by code point. Equal tuples are the same value, so the descending
  stable sort is the reversed ascending sort.\<close>

definition sort_reverse :: "(nat \<times> string) list \<Rightarrow> (nat \<times> string) list" where
  "sort_reverse cs = rev (sort cs)"

text \<open>
  \<open>find_all_loc txt\<close> stands for \<open>[tag.text for tag in BeautifulSoup(txt, "xml").find_all("loc")]\<close>,
  a parameter. \<open>BeautifulSoup(None, "xml")\<close> raises \<open>TypeError\<close>: the constructor takes
  \<open>len(markup)\<close>.
\<close>

definition none_markup_error :: py_error where
  "none_markup_error = TypeError ''object of type 'NoneType' has no len()''"

definition discover_latest_from_sitemap ::
  "http_get \<Rightarrow> (string \<Rightarrow> string list) \<Rightarrow> string \<Rightarrow> py_error + py_dict option" where
  "discover_latest_from_sitemap client_get find_all_loc u =
     (case fetch client_get u of
        Inl e \<Rightarrow> Inl e
      | Inr None \<Rightarrow> Inr None
      | Inr (Some txt) \<Rightarrow>
          if txt = [] then Inr None
          else
            let candidates = collect_candidates (find_all_loc txt)
            in if candidates = [] then Inr None
               else
                 let latest_url = snd (hd (sort_reverse candidates))
                 in (case fetch client_get latest_url of
                       Inl e \<Rightarrow> Inl e
                     | Inr None \<Rightarrow> Inl none_markup_error
                     | Inr (Some sitemap_xml) \<Rightarrow>
                         let urls = find_all_loc sitemap_xml
                         in if urls = [] then Inr None
                            else
                              let latest_post_url = strip (last urls)
                              in Inr (Some [(''url'', latest_post_url),
                                            (''source'', latest_url),
                                            (''title'', title (replace (CHR ''-'') (CHR '' '')
                                               (last (split_on (CHR ''/'') latest_post_url))))])))"

subsection \<open>What the results below are stated with\<close>

text \<open>
  The domain on which the string operations above are Python's: ASCII text. The number
  of a matched group, said without the loop of \<open>int_of_digits\<close>: the sum of the digits
  times their powers of ten, and 1 for the empty group. Title case, said position by
  position: a letter that starts a run of letters is upper-cased, a letter inside a run
  is lower-cased, everything else is kept. And, for comparison, "each word capitalized"
  read as it stands: the words are what the spaces separate, and a capitalized word has
  its first character upper-cased and the others lower-cased.
\<close>

definition ascii :: "string \<Rightarrow> bool" where
  "ascii s = list_all (\<lambda>c. (of_char c :: nat) < 128) s"

definition digit_value :: "char \<Rightarrow> nat" where
  "digit_value c = (of_char c :: nat) - 48"

definition decimal :: "string \<Rightarrow> nat" where
  "decimal g = (\<Sum>i<length g. digit_value (g ! i) * 10 ^ (length g - Suc i))"

definition suffix_number :: "string \<Rightarrow> nat" where
  "suffix_number g = (if g = [] then 1 else decimal g)"

definition is_letter :: "char \<Rightarrow> bool" where
  "is_letter c = (is_lower c \<or> is_upper c)"

definition title_char :: "string \<Rightarrow> nat \<Rightarrow> char" where
  "title_char s i =
     (if is_letter (s ! i)
      then (if i = 0 \<or> \<not> is_letter (s ! (i - 1)) then to_upper (s ! i) else to_lower (s ! i))
      else s ! i)"

definition capitalize :: "string \<Rightarrow> string" where
  "capitalize w = (case w of [] \<Rightarrow> [] | c # cs \<Rightarrow> to_upper c # map to_lower cs)"

fun join :: "char \<Rightarrow> string list \<Rightarrow> string" where
  "join sep [] = []"
| "join sep [w] = w"
| "join sep (w # v # ws) = w @ sep # join sep (v # ws)"

definition each_word_capitalized :: "string \<Rightarrow> string" where
  "each_word_capitalized s = join (CHR '' '') (map capitalize (split_on (CHR '' '') s))"

section \<open>app/routes/source.py: the discovery chain\<close>

text \<open>
  The three strategies are awaited network operations, so they are passed in as
  state transformers over a world \<open>'w\<close> (everything outside the process): a strategy that
  is not awaited leaves the world untouched. \<open>discover_from_rss\<close> and
  \<open>discover_from_html\<close> are parameters; \<open>discover_latest_from_sitemap\<close> is the function
  above.
\<close>

type_synonym 'w strategy = "string \<Rightarrow> 'w \<Rightarrow> (py_error + py_dict option) \<times> 'w"

text \<open>\<open>if result:\<close> is false for \<open>None\<close> and for the empty dict.\<close>

definition truthy :: "py_dict option \<Rightarrow> bool" where
  "truthy r = (case r of None \<Rightarrow> False | Some d \<Rightarrow> d \<noteq> [])"

text \<open>\<open>{"method": m, **result}\<close>: the keys of \<open>result\<close> are stored in order, a key
  already present keeps its place and takes the new value.\<close>

definition tagged :: "string \<Rightarrow> py_dict \<Rightarrow> py_dict" where
  "tagged m d = foldl (\<lambda>acc kv. AList.update (fst kv) (snd kv) acc) [(''method'', m)] d"

definition not_found :: py_dict where
  "not_found = [(''error'', ''Failed to detect article'')]"

definition test_source ::
  "'w strategy \<Rightarrow> 'w strategy \<Rightarrow> 'w strategy \<Rightarrow> py_dict \<Rightarrow> 'w \<Rightarrow> (py_error + py_dict) \<times> 'w" where
  "test_source discover_sitemap discover_from_rss discover_from_html payload w =
     (case map_of payload ''url'' of
        None \<Rightarrow> (Inl (KeyError ''url''), w)
      | Some u \<Rightarrow>
          (case discover_sitemap u w of
             (Inl e, w1) \<Rightarrow> (Inl e, w1)
           | (Inr r1, w1) \<Rightarrow>
               if truthy r1 then (Inr (tagged ''sitemap'' (the r1)), w1)
               else
                 (case discover_from_rss u w1 of
                    (Inl e, w2) \<Rightarrow> (Inl e, w2)
                  | (Inr r2, w2) \<Rightarrow>
                      if truthy r2 then (Inr (tagged ''rss'' (the r2)), w2)
                      else
                        (case discover_from_html u w2 of
                           (Inl e, w3) \<Rightarrow> (Inl e, w3)
                         | (Inr r3, w3) \<Rightarrow>
                             if truthy r3 then (Inr (tagged ''html'' (the r3)), w3)
                             else (Inr not_found, w3)))))"

text \<open>The sitemap strategy as \<open>test_source\<close> awaits it; what it reads from the network
  is in \<open>client_get\<close> and \<open>find_all_loc\<close>.\<close>

definition sitemap_strategy :: "http_get \<Rightarrow> (string \<Rightarrow> string list) \<Rightarrow> string list strategy" where
  "sitemap_strategy client_get find_all_loc u w = (discover_latest_from_sitemap client_get find_all_loc u, w)"

section \<open>app/routes/cms.py: verifying a CMS connection\<close>

text \<open>
  \<open>client.get(url, auth=auth)\<close> and \<open>r.json()\<close> are parameters: the request answers or
  raises, and decoding the body gives a value of some type \<open>'j\<close> or raises. The returned
  dict is \<open>{"success": True, "categories": c}\<close> or \<open>{"success": False, "message": m}\<close>.
\<close>

datatype 'j verify_result =
    Categories 'j
  | Message string

fun success :: "'j verify_result \<Rightarrow> bool" where
  "success (Categories c) = True"
| "success (Message m) = False"

definition verify_connection ::
  "(string \<Rightarrow> string \<times> string \<Rightarrow> py_error + response) \<Rightarrow> (string \<Rightarrow> py_error + 'j) \<Rightarrow>
   py_dict \<Rightarrow> py_error + 'j verify_result" where
  "verify_connection client_get json payload =
     (case map_of payload ''url'' of
        None \<Rightarrow> Inl (KeyError ''url'')
      | Some base_url \<Rightarrow>
     (case map_of payload ''username'' of
        None \<Rightarrow> Inl (KeyError ''username'')
      | Some user \<Rightarrow>
     (case map_of payload ''password'' of
        None \<Rightarrow> Inl (KeyError ''password'')
      | Some app_password \<Rightarrow>
          (case client_get (base_url @ ''/wp-json/wp/v2/categories'') (user, app_password) of
             Inl e \<Rightarrow> Inr (Message (str_of_error e))
           | Inr r \<Rightarrow>
               if status_code r = 200 then
                 (case json (body r) of
                    Inl e \<Rightarrow> Inr (Message (str_of_error e))
                  | Inr c \<Rightarrow> Inr (Categories c))
               else Inr (Message (body r))))))"

section \<open>Awaited calls\<close>

text \<open>
  What awaiting a coroutine can do to the code around it: return a value, raise an
  exception (an instance of \<open>Exception\<close>), or be interrupted by a signal that is a
  \<open>BaseException\<close> only (task cancellation, interpreter exit), which \<open>except Exception\<close>
  lets through.
\<close>

datatype 'a awaited =
    Returned 'a
  | Raised py_error
  | Interrupted string

section \<open>app/worker/worker.py: the worker's log lines\<close>

text \<open>
  \<open>run_campaign_worker\<close> is an async generator; the model gives the lines it yields when
  iterated to the end, and the signal that ended it, if one did.
  \<open>fetch_with_playwright\<close> is a parameter.
\<close>

definition run_campaign_worker ::
  "(string \<Rightarrow> nat \<Rightarrow> string list \<Rightarrow> string awaited) \<Rightarrow> string list \<times> string option" where
  "run_campaign_worker fetch_with_playwright =
     (case fetch_with_playwright ''https://example.com'' 3 [''http://proxy1.com'', ''http://proxy2.com''] of
        Returned html \<Rightarrow>
          ([''[INFO] Starting worker...'', ''[SUCCESS] Fetched page'', ''[INFO] Worker complete''], None)
      | Raised e \<Rightarrow>
          ([''[INFO] Starting worker...'', ''[ERROR] '' @ str_of_error e, ''[INFO] Worker complete''], None)
      | Interrupted sg \<Rightarrow>
          ([''[INFO] Starting worker...''], Some sg))"

section \<open>The log hub\<close>

type_synonym run_id = string
type_synonym websocket = nat

record log_event =
  ts :: int
  level :: string
  ev_text :: string

text \<open>
  Modelled from the spec: \<open>app/ws_manager.py\<close> (the object \<open>ws_manager\<close> with \<open>connect\<close>,
  \<open>send\<close> and \<open>disconnect\<close>) is not among the sources. The spec's Log Broadcast Hub stands
  for it: \<open>subscribe\<close> registers a listener, or, for a run whose channel set was closed,
  hands over the terminal marker and nothing more; \<open>publish\<close> delivers an event to every
  listener registered for the run at that moment, each listener having a bounded buffer
  that drops its oldest entry on overflow; \<open>unsubscribe\<close> removes a listener and is
  idempotent; \<open>closeRun\<close> marks the run closed, delivers the terminal marker to the
  current listeners and releases the channel set.
\<close>

datatype message =
    Log log_event
  | TerminalMarker

record hub =
  subscribers :: "(run_id \<times> websocket) list"
  buffers :: "websocket \<Rightarrow> message list"
  closed :: "run_id list"
  capacity :: nat

definition deliver :: "nat \<Rightarrow> message list \<Rightarrow> message \<Rightarrow> message list" where
  "deliver cap buf m = drop (Suc (length buf) - cap) (buf @ [m])"

definition connect :: "hub \<Rightarrow> run_id \<Rightarrow> websocket \<Rightarrow> hub" where
  "connect h rid ws =
     (if rid \<in> set (closed h)
      then h\<lparr>buffers := (buffers h)(ws := deliver (capacity h) (buffers h ws) TerminalMarker)\<rparr>
      else h\<lparr>subscribers := subscribers h @ [(rid, ws)]\<rparr>)"

definition send :: "hub \<Rightarrow> run_id \<Rightarrow> log_event \<Rightarrow> hub" where
  "send h rid ev =
     h\<lparr>buffers := (\<lambda>ws. if (rid, ws) \<in> set (subscribers h)
                           then deliver (capacity h) (buffers h ws) (Log ev)
                           else buffers h ws)\<rparr>"

definition disconnect :: "hub \<Rightarrow> run_id \<Rightarrow> websocket \<Rightarrow> hub" where
  "disconnect h rid ws = h\<lparr>subscribers := removeAll (rid, ws) (subscribers h)\<rparr>"

definition close_run :: "hub \<Rightarrow> run_id \<Rightarrow> hub" where
  "close_run h rid =
     h\<lparr>buffers := (\<lambda>ws. if (rid, ws) \<in> set (subscribers h)
                           then deliver (capacity h) (buffers h ws) TerminalMarker
                           else buffers h ws),
       subscribers := filter (\<lambda>p. fst p \<noteq> rid) (subscribers h),
       closed := rid # closed h\<rparr>"

section \<open>app/main.py: starting runs and streaming their logs\<close>

text \<open>
  The process state: the module-level dict \<open>RUN_TASKS\<close>, the \<open>ws_manager\<close> object, the
  tasks the event loop has been given and has not started (\<open>asyncio.create_task\<close> only
  schedules the coroutine), and, for stating what was published, the sequence of
  \<open>ws_manager.send\<close> calls made so far. A task is the coroutine \<open>_background_run(cfg, run_id)\<close>
  it wraps; the campaign configuration is opaque.
\<close>

record 'c task =
  task_cfg :: 'c
  task_run_id :: run_id

record 'c system =
  RUN_TASKS :: "run_id \<rightharpoonup> 'c task"
  ws_manager :: hub
  ready :: "'c task list"
  sent :: "(run_id \<times> log_event) list"

definition ws_send :: "run_id \<Rightarrow> 'c system \<Rightarrow> log_event \<Rightarrow> 'c system" where
  "ws_send rid s ev = s\<lparr>ws_manager := send (ws_manager s) rid ev, sent := sent s @ [(rid, ev)]\<rparr>"

text \<open>\<open>d.pop(key, None)\<close>: the value and the dict without the key, or \<open>None\<close> and the dict
  as it was; with a default given, \<open>pop\<close> does not raise.\<close>

definition pop_or_none :: "('k \<rightharpoonup> 'v) \<Rightarrow> 'k \<Rightarrow> 'v option \<times> ('k \<rightharpoonup> 'v)" where
  "pop_or_none d k = (case d k of None \<Rightarrow> (None, d) | Some v \<Rightarrow> (Some v, d(k := None)))"

record run_response =
  resp_success :: bool
  resp_run_id :: run_id

text \<open>\<open>uuid4\<close> is the string \<open>str(uuid.uuid4())\<close> drew for this request.\<close>

definition run_campaign_async_endpoint ::
  "run_id \<Rightarrow> 'c \<Rightarrow> 'c system \<Rightarrow> run_response \<times> 'c system" where
  "run_campaign_async_endpoint uuid4 campaign s =
     (let run_id = uuid4;
          cfg = campaign;
          task = \<lparr>task_cfg = cfg, task_run_id = run_id\<rparr>;
          s1 = s\<lparr>ready := ready s @ [task]\<rparr>;
          s2 = s1\<lparr>RUN_TASKS := (RUN_TASKS s1)(run_id \<mapsto> task)\<rparr>
      in (\<lparr>resp_success = True, resp_run_id = run_id\<rparr>, s2))"

text \<open>
  Modelled from the spec: \<open>app/async_worker.py\<close> (\<open>run_campaign_async\<close>) is not among the
  sources. Following the spec's Run Executor, awaiting it publishes log events for its
  own run id through \<open>ws_manager.send\<close> and then returns or raises.
\<close>

record execution =
  emitted :: "log_event list"
  outcome :: "unit awaited"

definition error_event :: "int \<Rightarrow> py_error \<Rightarrow> log_event" where
  "error_event t e = \<lparr>ts = t, level = ''ERROR'', ev_text = ''Background run error: '' @ str_of_error e\<rparr>"

definition finished_event :: "int \<Rightarrow> log_event" where
  "finished_event t = \<lparr>ts = t, level = ''INFO'', ev_text = ''Run finished''\<rparr>"

text \<open>
  \<open>_background_run\<close>. \<open>t_err\<close> and \<open>t_fin\<close> are the readings of \<open>int(time.time())\<close> in the
  handler and in the \<open>finally\<close> block. The result carries the signal that leaves the
  coroutine, if any: the \<open>finally\<close> block runs on every path, the handler only for an
  \<open>Exception\<close>.
\<close>

definition background_run ::
  "('c \<Rightarrow> run_id \<Rightarrow> execution) \<Rightarrow> int \<Rightarrow> int \<Rightarrow> 'c \<Rightarrow> run_id \<Rightarrow> 'c system \<Rightarrow>
   string option \<times> 'c system" where
  "background_run run_campaign_async t_err t_fin cfg run_id s =
     (let ex = run_campaign_async cfg run_id;
          s1 = foldl (ws_send run_id) s (emitted ex);
          s2 = (case outcome ex of
                  Raised e \<Rightarrow> ws_send run_id s1 (error_event t_err e)
                | _ \<Rightarrow> s1);
          s3 = ws_send run_id s2 (finished_event t_fin);
          s4 = s3\<lparr>RUN_TASKS := snd (pop_or_none (RUN_TASKS s3) run_id)\<rparr>
      in (case outcome ex of Interrupted sg \<Rightarrow> Some sg | _ \<Rightarrow> None, s4))"

text \<open>The event loop starts the oldest scheduled task and runs it to its end.\<close>

definition run_next_task ::
  "('c \<Rightarrow> run_id \<Rightarrow> execution) \<Rightarrow> int \<Rightarrow> int \<Rightarrow> 'c system \<Rightarrow> string option \<times> 'c system" where
  "run_next_task run_campaign_async t_err t_fin s =
     (case ready s of
        [] \<Rightarrow> (None, s)
      | t # rest \<Rightarrow>
          background_run run_campaign_async t_err t_fin (task_cfg t) (task_run_id t) (s\<lparr>ready := rest\<rparr>))"

text \<open>
  \<open>websocket_logs\<close>. The client's side of the connection is the list of what
  \<open>receive_text\<close> meets: a text frame (ignored), the disconnect, or another error. The
  loop ends at the first of the latter two; on a list without them the handler is still
  waiting and the connection stays registered.
\<close>

datatype frame =
    TextFrame string
  | WebSocketDisconnect
  | ReceiveError py_error

fun receive_loop :: "frame list \<Rightarrow> bool" where
  "receive_loop [] = False"
| "receive_loop (TextFrame t # fs) = receive_loop fs"
| "receive_loop (WebSocketDisconnect # fs) = True"
| "receive_loop (ReceiveError e # fs) = True"

definition websocket_logs :: "websocket \<Rightarrow> run_id \<Rightarrow> frame list \<Rightarrow> 'c system \<Rightarrow> 'c system" where
  "websocket_logs ws run_id frames s =
     (let s1 = s\<lparr>ws_manager := connect (ws_manager s) run_id ws\<rparr>
      in if receive_loop frames
         then s1\<lparr>ws_manager := disconnect (ws_manager s1) run_id ws\<rparr>
         else s1)"

definition initial :: "nat \<Rightarrow> 'c system" where
  "initial cap =
     \<lparr>RUN_TASKS = Map.empty,
      ws_manager = \<lparr>subscribers = [], buffers = (\<lambda>ws. []), closed = [], capacity = cap\<rparr>,
      ready = [],
      sent = []\<rparr>"

text \<open>
  The states the process can be in: it boots with an empty registry and hub, and then
  requests start runs, the event loop runs scheduled tasks, and clients open (and
  possibly close) log connections. These are all the operations of \<open>main.py\<close>.
  \<open>uuid4 n\<close> is the string the \<open>n\<close>-th call of \<open>str(uuid.uuid4())\<close> in the process returns;
  the number counts the calls made so far.
\<close>

inductive reachable ::
  "(nat \<Rightarrow> run_id) \<Rightarrow> ('c \<Rightarrow> run_id \<Rightarrow> execution) \<Rightarrow> nat \<Rightarrow> 'c system \<Rightarrow> bool"
  for uuid4 :: "nat \<Rightarrow> run_id" and run_campaign_async :: "'c \<Rightarrow> run_id \<Rightarrow> execution" where
  boot: "reachable uuid4 run_campaign_async 0 (initial cap)"
| start: "reachable uuid4 run_campaign_async n s \<Longrightarrow>
          reachable uuid4 run_campaign_async (Suc n) (snd (run_campaign_async_endpoint (uuid4 n) campaign s))"
| run: "reachable uuid4 run_campaign_async n s \<Longrightarrow>
        reachable uuid4 run_campaign_async n (snd (run_next_task run_campaign_async t_err t_fin s))"
| attach: "reachable uuid4 run_campaign_async n s \<Longrightarrow>
           reachable uuid4 run_campaign_async n (websocket_logs ws rid frames s)"

text \<open>A terminal event is an \<open>INFO\<close> event with the text "Run finished".\<close>

definition is_run_finished :: "log_event \<Rightarrow> bool" where
  "is_run_finished ev = (level ev = ''INFO'' \<and> ev_text ev = ''Run finished'')"

section \<open>Concrete scenarios\<close>

text \<open>A site whose sitemap index lists two post sitemaps and a page sitemap; the second
  post sitemap lists two articles. \<open>example_get_missing\<close> is the same site when the
  post sitemaps answer 404.\<close>

definition example_index :: string where
  "example_index = ''<sitemapindex><loc>https://example.com/post-sitemap.xml</loc><loc>https://example.com/post-sitemap2.xml</loc><loc>https://example.com/page-sitemap.xml</loc></sitemapindex>''"

definition example_posts :: string where
  "example_posts = ''<urlset><loc>https://example.com/blog/hello-world</loc><loc> https://example.com/blog/my-first-post </loc></urlset>''"

definition example_old_posts :: string where
  "example_old_posts = ''<urlset><loc>https://example.com/blog/older-post</loc></urlset>''"

definition example_find_all_loc :: "string \<Rightarrow> string list" where
  "example_find_all_loc txt =
     (if txt = example_index
      then [''https://example.com/post-sitemap.xml'', ''https://example.com/post-sitemap2.xml'',
            ''https://example.com/page-sitemap.xml'']
      else if txt = example_posts
      then [''https://example.com/blog/hello-world'', '' https://example.com/blog/my-first-post '']
      else if txt = example_old_posts
      then [''https://example.com/blog/older-post'']
      else [])"

definition example_get :: http_get where
  "example_get u =
     (if u = ''https://example.com/sitemap_index.xml'' then Inr \<lparr>status_code = 200, body = example_index\<rparr>
      else if u = ''https://example.com/post-sitemap.xml'' then Inr \<lparr>status_code = 200, body = example_old_posts\<rparr>
      else if u = ''https://example.com/post-sitemap2.xml'' then Inr \<lparr>status_code = 200, body = example_posts\<rparr>
      else Inr \<lparr>status_code = 404, body = ''Not Found''\<rparr>)"

definition example_get_missing :: http_get where
  "example_get_missing u =
     (if u = ''https://example.com/sitemap_index.xml'' then Inr \<lparr>status_code = 200, body = example_index\<rparr>
      else Inr \<lparr>status_code = 404, body = ''Not Found''\<rparr>)"

text \<open>A shop whose index lists post sitemaps 9 and 10 and a page sitemap; only sitemap
  10 answers, and its last article is about a phone.\<close>

definition shop_index :: string where
  "shop_index = ''<sitemapindex><loc>https://shop.example.com/post-sitemap9.xml</loc><loc>https://shop.example.com/post-sitemap10.xml</loc><loc>https://shop.example.com/page-sitemap.xml</loc></sitemapindex>''"

definition shop_posts :: string where
  "shop_posts = ''<urlset><loc>https://shop.example.com/blog/hello-world</loc><loc>https://shop.example.com/blog/iphone-3gs-review</loc></urlset>''"

definition shop_find_all_loc :: "string \<Rightarrow> string list" where
  "shop_find_all_loc txt =
     (if txt = shop_index
      then [''https://shop.example.com/post-sitemap9.xml'', ''https://shop.example.com/post-sitemap10.xml'',
            ''https://shop.example.com/page-sitemap.xml'']
      else if txt = shop_posts
      then [''https://shop.example.com/blog/hello-world'', ''https://shop.example.com/blog/iphone-3gs-review'']
      else [])"

definition shop_get :: http_get where
  "shop_get u =
     (if u = ''https://shop.example.com/sitemap_index.xml'' then Inr \<lparr>status_code = 200, body = shop_index\<rparr>
      else if u = ''https://shop.example.com/post-sitemap10.xml'' then Inr \<lparr>status_code = 200, body = shop_posts\<rparr>
      else Inr \<lparr>status_code = 404, body = ''Not Found''\<rparr>)"

text \<open>A run that publishes one progress event and returns, started on a fresh process
  and run to its end.\<close>

definition progress_event :: log_event where
  "progress_event = \<lparr>ts = 10, level = ''INFO'', ev_text = ''Fetching source''\<rparr>"

definition quiet_run :: "unit \<Rightarrow> run_id \<Rightarrow> execution" where
  "quiet_run cfg rid = \<lparr>emitted = [progress_event], outcome = Returned ()\<rparr>"

definition late_started :: "unit system" where
  "late_started = snd (run_campaign_async_endpoint ''run-1'' () (initial 8))"

definition late_finished :: "unit system" where
  "late_finished = snd (run_next_task quiet_run 11 12 late_started)"

text \<open>The same process after the hub has closed the run's channel set; and identifiers a
  generator hands out without repeating itself.\<close>

definition late_closed :: "unit system" where
  "late_closed = late_finished\<lparr>ws_manager := close_run (ws_manager late_finished) ''run-1''\<rparr>"


text \<open>A run that publishes one progress event and fails; a page fetch that times out.\<close>

definition failing_run :: "unit \<Rightarrow> run_id \<Rightarrow> execution" where
  "failing_run cfg rid = \<lparr>emitted = [progress_event], outcome = Raised (RuntimeError ''boom'')\<rparr>"

definition failing_fetch :: "string \<Rightarrow> nat \<Rightarrow> string list \<Rightarrow> string awaited" where
  "failing_fetch u retries proxies = Raised (TransportError ''net::ERR_TIMED_OUT'')"

text \<open>A feed strategy that knows one site and an HTML strategy that finds nothing; both
  note in the world that they ran.\<close>

definition example_rss :: "string list strategy" where
  "example_rss u w =
     (if u = ''https://feeds.example.org''
      then Inr (Some [(''url'', ''https://feeds.example.org/a-story''), (''source'', ''https://feeds.example.org/feed''),
                      (''title'', ''A Story'')])
      else Inr None,
      w @ [''rss''])"

definition example_html :: "string list strategy" where
  "example_html u w = (Inr None, w @ [''html''])"


text \<open>A verification request against a site that answers every URL with an HTML page,
  and a JSON decoder that knows one document.\<close>

definition example_payload :: py_dict where
  "example_payload = [(''url'', ''https://blog.example.com''), (''username'', ''editor''), (''password'', ''abcd efgh'')]"

definition example_get_html :: "string \<Rightarrow> string \<times> string \<Rightarrow> py_error + response" where
  "example_get_html u auth = Inr \<lparr>status_code = 200, body = ''<html>Welcome</html>''\<rparr>"

definition example_json :: "string \<Rightarrow> py_error + string list" where
  "example_json b =
     (if b = ''[\"News\"]'' then Inr [''News'']
      else Inl (JSONDecodeError ''Expecting value: line 1 column 1 (char 0)''))"

definition example_get_json :: "string \<Rightarrow> string \<times> string \<Rightarrow> py_error + response" where
  "example_get_json u auth =
     (if u = ''https://blog.example.com/wp-json/wp/v2/categories'' \<and> auth = (''editor'', ''abcd efgh'')
      then Inr \<lparr>status_code = 200, body = ''[\"News\"]''\<rparr>
      else Inr \<lparr>status_code = 401, body = ''Unauthorized''\<rparr>)"

section \<open>Results\<close>

text \<open>
  C6. When the credential is absent (\<open>os.getenv\<close> gave \<open>None\<close>, or the empty string, which
  \<open>not GEN_API_KEY\<close> treats alike), \<open>rewrite_content_gemini\<close> returns its input text
  unchanged for every text and word budget, whatever the generative model would do; it
  does not raise.
\<close>

theorem rewrite_without_key_is_identity:
  "rewrite_content_gemini None generate_content txt max_words = Inr txt
   \<and> rewrite_content_gemini (Some []) generate_content txt max_words = Inr txt"
  by (simp add: rewrite_content_gemini_def absent_key_def)

subsection \<open>Sitemap discovery\<close>

text \<open>The matcher written from the regular expression finds exactly the strings of the
  pattern, with the digits as group 3.\<close>

lemma digits_xml_end_iff:
  "digits_xml_end s = Some g \<longleftrightarrow>
     (\<forall>c \<in> set g. is_digit c) \<and> (s = g @ ''.xml'' \<or> s = g @ ''.xml'' @ [CHR 0x0A])"
proof
  assume a: "digits_xml_end s = Some g"
  then have g: "g = takeWhile is_digit s"
    and r: "dropWhile is_digit s = ''.xml'' \<or> dropWhile is_digit s = ''.xml'' @ [CHR 0x0A]"
    by (auto simp: digits_xml_end_def Let_def split: if_splits)
  have "s = g @ dropWhile is_digit s"
    by (simp add: g)
  with r have "s = g @ ''.xml'' \<or> s = g @ ''.xml'' @ [CHR 0x0A]"
    by metis
  moreover have "\<forall>c \<in> set g. is_digit c"
    unfolding g by (auto dest: set_takeWhileD)
  ultimately show "(\<forall>c \<in> set g. is_digit c) \<and> (s = g @ ''.xml'' \<or> s = g @ ''.xml'' @ [CHR 0x0A])"
    by simp
next
  assume b: "(\<forall>c \<in> set g. is_digit c) \<and> (s = g @ ''.xml'' \<or> s = g @ ''.xml'' @ [CHR 0x0A])"
  have nd: "\<not> is_digit (CHR ''.'')"
    by (simp add: is_digit_def)
  from b obtain r where s: "s = g @ CHR ''.'' # r" and r: "CHR ''.'' # r = ''.xml'' \<or> CHR ''.'' # r = ''.xml'' @ [CHR 0x0A]"
    by auto
  have "takeWhile is_digit s = g" "dropWhile is_digit s = CHR ''.'' # r"
    using b nd by (simp_all add: s takeWhile_append2 dropWhile_append2)
  with r show "digits_xml_end s = Some g"
    by (auto simp: digits_xml_end_def Let_def)
qed

lemma opt_sitemap_rest_iff:
  "opt_sitemap_rest s = Some g \<longleftrightarrow>
     digits_xml_end s = Some g \<or> (\<exists>r. s = ''-sitemap'' @ r \<and> digits_xml_end r = Some g)"
proof
  assume "opt_sitemap_rest s = Some g"
  then consider "take 8 s = ''-sitemap''" "digits_xml_end (drop 8 s) = Some g"
    | "digits_xml_end s = Some g"
    by (auto simp: opt_sitemap_rest_def split: option.splits if_splits)
  then show "digits_xml_end s = Some g \<or> (\<exists>r. s = ''-sitemap'' @ r \<and> digits_xml_end r = Some g)"
  proof cases
    case 1
    have "s = take 8 s @ drop 8 s" by simp
    with 1(1) have "s = ''-sitemap'' @ drop 8 s" by metis
    with 1(2) show ?thesis by blast
  next
    case 2
    then show ?thesis by simp
  qed
next
  assume "digits_xml_end s = Some g \<or> (\<exists>r. s = ''-sitemap'' @ r \<and> digits_xml_end r = Some g)"
  then consider "digits_xml_end s = Some g"
    | r where "s = ''-sitemap'' @ r" "digits_xml_end r = Some g"
    by auto
  then show "opt_sitemap_rest s = Some g"
  proof cases
    case 1
    then have s: "s = g @ ''.xml'' \<or> s = g @ ''.xml'' @ [CHR 0x0A]" and g: "\<forall>c \<in> set g. is_digit c"
      by (simp_all add: digits_xml_end_iff)
    have "take 8 s \<noteq> ''-sitemap''"
    proof (cases g)
      case Nil
      with s show ?thesis by auto
    next
      case (Cons c cs)
      with g have "is_digit c" by simp
      then have "c \<noteq> CHR ''-''" by (auto simp: is_digit_def)
      with s Cons show ?thesis by auto
    qed
    with 1 show ?thesis by (simp add: opt_sitemap_rest_def)
  next
    case 2
    then show ?thesis by (simp add: opt_sitemap_rest_def)
  qed
qed

lemma match_words_Some:
  "match_words ws s = Some g \<Longrightarrow> \<exists>w r. w \<in> set ws \<and> s = w @ r \<and> opt_sitemap_rest r = Some g"
proof (induction ws)
  case Nil
  then show ?case by simp
next
  case (Cons w ws)
  show ?case
  proof (cases "take (length w) s = w \<and> opt_sitemap_rest (drop (length w) s) = Some g")
    case True
    have "s = take (length w) s @ drop (length w) s" by simp
    with True have "s = w @ drop (length w) s" by metis
    with True show ?thesis by (metis list.set_intros(1))
  next
    case False
    with Cons.prems have "match_words ws s = Some g"
      by (auto split: option.splits if_splits)
    with Cons.IH show ?thesis by (metis list.set_intros(2))
  qed
qed

lemma match_here_iff:
  "match_here s = Some g \<longleftrightarrow>
     (\<exists>w r. w \<in> {''post'', ''article'', ''news''} \<and> s = w @ r \<and> opt_sitemap_rest r = Some g)"
proof
  assume "match_here s = Some g"
  then have "\<exists>w r. w \<in> set [''post'', ''article'', ''news''] \<and> s = w @ r \<and> opt_sitemap_rest r = Some g"
    unfolding match_here_def by (rule match_words_Some)
  then show "\<exists>w r. w \<in> {''post'', ''article'', ''news''} \<and> s = w @ r \<and> opt_sitemap_rest r = Some g"
    by simp
next
  assume "\<exists>w r. w \<in> {''post'', ''article'', ''news''} \<and> s = w @ r \<and> opt_sitemap_rest r = Some g"
  then consider r where "s = ''post'' @ r" "opt_sitemap_rest r = Some g"
    | r where "s = ''article'' @ r" "opt_sitemap_rest r = Some g"
    | r where "s = ''news'' @ r" "opt_sitemap_rest r = Some g"
    by auto
  then show "match_here s = Some g"
    by cases (simp_all add: match_here_def)
qed

lemma search_iff_match_here:
  "search s = Some g \<Longrightarrow> \<exists>pre m. s = pre @ m \<and> match_here m = Some g"
proof (induction s)
  case Nil
  then show ?case by simp
next
  case (Cons c cs)
  show ?case
  proof (cases "match_here (c # cs)")
    case None
    with Cons.prems have "search cs = Some g" by simp
    then obtain pre m where "cs = pre @ m" "match_here m = Some g"
      using Cons.IH by blast
    then have "c # cs = (c # pre) @ m \<and> match_here m = Some g" by simp
    then show ?thesis by blast
  next
    case (Some g')
    with Cons.prems have "g' = g" by simp
    with Some have "c # cs = [] @ (c # cs) \<and> match_here (c # cs) = Some g" by simp
    then show ?thesis by blast
  qed
qed

lemma search_finds_some:
  "match_here m = Some g \<Longrightarrow> \<exists>g'. search (pre @ m) = Some g'"
proof (induction pre)
  case Nil
  then show ?case by (cases m) simp_all
next
  case (Cons c pre)
  then show ?case by (cases "match_here (c # pre @ m)") simp_all
qed

lemma match_here_shape:
  "match_here m = Some g \<longleftrightarrow>
     (\<exists>w opt nl. m = w @ opt @ g @ ''.xml'' @ nl
        \<and> w \<in> {''post'', ''article'', ''news''} \<and> opt \<in> {[], ''-sitemap''}
        \<and> (\<forall>c \<in> set g. is_digit c) \<and> nl \<in> {[], [CHR 0x0A]})"
proof
  assume "match_here m = Some g"
  then obtain w r where w: "w \<in> {''post'', ''article'', ''news''}" "m = w @ r" "opt_sitemap_rest r = Some g"
    unfolding match_here_iff by blast
  from w(3) obtain opt r' where o: "opt \<in> {[], ''-sitemap''}" "r = opt @ r'" "digits_xml_end r' = Some g"
    unfolding opt_sitemap_rest_iff by fastforce
  from o(3) obtain nl where n: "nl \<in> {[], [CHR 0x0A]}" "r' = g @ ''.xml'' @ nl" "\<forall>c \<in> set g. is_digit c"
    unfolding digits_xml_end_iff by fastforce
  have "m = w @ opt @ g @ ''.xml'' @ nl"
    by (simp add: w(2) o(2) n(2))
  with w(1) o(1) n(1,3) show "\<exists>w opt nl. m = w @ opt @ g @ ''.xml'' @ nl
        \<and> w \<in> {''post'', ''article'', ''news''} \<and> opt \<in> {[], ''-sitemap''}
        \<and> (\<forall>c \<in> set g. is_digit c) \<and> nl \<in> {[], [CHR 0x0A]}"
    by blast
next
  assume "\<exists>w opt nl. m = w @ opt @ g @ ''.xml'' @ nl
        \<and> w \<in> {''post'', ''article'', ''news''} \<and> opt \<in> {[], ''-sitemap''}
        \<and> (\<forall>c \<in> set g. is_digit c) \<and> nl \<in> {[], [CHR 0x0A]}"
  then obtain w opt nl where m: "m = w @ opt @ g @ ''.xml'' @ nl"
    and w: "w \<in> {''post'', ''article'', ''news''}" and o: "opt \<in> {[], ''-sitemap''}"
    and g: "\<forall>c \<in> set g. is_digit c" and n: "nl \<in> {[], [CHR 0x0A]}"
    by blast
  from g n have "digits_xml_end (g @ ''.xml'' @ nl) = Some g"
    unfolding digits_xml_end_iff by auto
  with o have "opt_sitemap_rest (opt @ g @ ''.xml'' @ nl) = Some g"
    unfolding opt_sitemap_rest_iff by auto
  with w show "match_here m = Some g"
    unfolding match_here_iff m by blast
qed

lemma trailing_digits:
  assumes "a \<noteq> []" and "\<not> is_digit (last a)" and "\<forall>c \<in> set g. is_digit c"
    and "nl \<in> {[], [CHR 0x0A]}" and "x = a @ g @ ''.xml'' @ nl"
  shows "rev (takeWhile is_digit (drop 4 (rev (if last x = CHR 0x0A then butlast x else x)))) = g"
proof -
  have "(if last x = CHR 0x0A then butlast x else x) = a @ g @ ''.xml''"
  proof (cases "nl = []")
    case True
    then show ?thesis by (simp add: assms(5))
  next
    case False
    with assms(4) have "nl = [CHR 0x0A]" by simp
    then have "x = (a @ g @ ''.xml'') @ [CHR 0x0A]" by (simp add: assms(5))
    then have "last x = CHR 0x0A" "butlast x = a @ g @ ''.xml''"
      by (simp_all only: last_snoc butlast_snoc)
    then show ?thesis by simp
  qed
  then have "drop 4 (rev (if last x = CHR 0x0A then butlast x else x)) = rev g @ rev a"
    by simp
  moreover have "takeWhile is_digit (rev g @ rev a) = rev g"
  proof -
    from assms(1) obtain b c where a: "a = b @ [c]"
      by (metis rev_exhaust)
    with assms(2) have "\<not> is_digit c" by simp
    with assms(3) show ?thesis
      by (simp add: a takeWhile_tail takeWhile_eq_all_conv)
  qed
  ultimately show ?thesis by simp
qed

lemma match_here_trailing:
  assumes "match_here m = Some g" and "x = pre @ m"
  shows "rev (takeWhile is_digit (drop 4 (rev (if last x = CHR 0x0A then butlast x else x)))) = g"
proof -
  from assms(1) obtain w opt nl where m: "m = w @ opt @ g @ ''.xml'' @ nl"
    and w: "w \<in> {''post'', ''article'', ''news''}" and o: "opt \<in> {[], ''-sitemap''}"
    and g: "\<forall>c \<in> set g. is_digit c" and n: "nl \<in> {[], [CHR 0x0A]}"
    unfolding match_here_shape by blast
  from w o have ne: "w @ opt \<noteq> []" and nd: "\<not> is_digit (last (w @ opt))"
    by (auto simp: is_digit_def)
  from ne have "last (pre @ w @ opt) = last (w @ opt)"
    by (metis last_appendR)
  with ne nd have f1: "pre @ w @ opt \<noteq> []" and f2: "\<not> is_digit (last (pre @ w @ opt))"
    by simp_all
  have f3: "x = (pre @ w @ opt) @ g @ ''.xml'' @ nl"
    by (simp add: assms(2) m)
  show ?thesis
    by (rule trailing_digits[OF f1 f2 g n f3])
qed

lemma search_iff_post_pattern: "search s = Some g \<longleftrightarrow> post_pattern s g"
proof
  assume "search s = Some g"
  then obtain pre m where "s = pre @ m" "match_here m = Some g"
    using search_iff_match_here by blast
  then show "post_pattern s g"
    unfolding post_pattern_def match_here_shape by blast
next
  assume "post_pattern s g"
  then obtain pre m where pm: "s = pre @ m" "match_here m = Some g"
    unfolding post_pattern_def match_here_shape by blast
  then obtain g' where g': "search s = Some g'"
    using search_finds_some by blast
  then obtain pre' m' where pm': "s = pre' @ m'" "match_here m' = Some g'"
    using search_iff_match_here by blast
  have "g' = g"
    using match_here_trailing[OF pm(2) pm(1)] match_here_trailing[OF pm'(2) pm'(1)] by simp
  with g' show "search s = Some g" by simp
qed

text \<open>\<open>s.split("/")[-1]\<close> is the text after the last slash, the whole string when it
  has none, and empty when the string ends with a slash.\<close>

lemma split_on_not_Nil: "split_on sep s \<noteq> []"
  by (induction s) (auto split: list.splits)

lemma split_on_without_sep: "sep \<notin> set s \<Longrightarrow> split_on sep s = [s]"
  by (induction s) auto

lemma split_on_with_sep: "sep \<in> set s \<Longrightarrow> tl (split_on sep s) \<noteq> []"
proof (induction s)
  case Nil
  then show ?case by simp
next
  case (Cons c cs)
  show ?case
  proof (cases "c = sep")
    case True
    then show ?thesis by (simp add: split_on_not_Nil)
  next
    case False
    with Cons.prems have "sep \<in> set cs" by simp
    then have "tl (split_on sep cs) \<noteq> []" by (rule Cons.IH)
    with False show ?thesis by (auto split: list.splits)
  qed
qed

lemma last_split_on: "last (split_on sep s) = rev (takeWhile (\<lambda>c. c \<noteq> sep) (rev s))"
proof (induction s)
  case Nil
  show ?case by simp
next
  case (Cons c cs)
  show ?case
  proof (cases "c = sep")
    case True
    then show ?thesis
      by (simp add: split_on_not_Nil Cons.IH takeWhile_tail)
  next
    case False
    show ?thesis
    proof (cases "sep \<in> set cs")
      case True
      then have t: "tl (split_on sep cs) \<noteq> []" by (rule split_on_with_sep)
      then obtain w ws where ws: "split_on sep cs = w # ws" "ws \<noteq> []"
        by (cases "split_on sep cs") auto
      then have "last (split_on sep (c # cs)) = last (split_on sep cs)"
        using False by simp
      also have "\<dots> = rev (takeWhile (\<lambda>c. c \<noteq> sep) (rev cs))" by (rule Cons.IH)
      also have "\<dots> = rev (takeWhile (\<lambda>c. c \<noteq> sep) (rev (c # cs)))"
        using True by (simp add: takeWhile_append1)
      finally show ?thesis .
    next
      case False
      then have n: "sep \<notin> set (c # cs)" using \<open>c \<noteq> sep\<close> by simp
      then have a: "split_on sep (c # cs) = [c # cs]" by (rule split_on_without_sep)
      have b: "takeWhile (\<lambda>c. c \<noteq> sep) (rev (c # cs)) = rev (c # cs)"
        using n by (auto simp: takeWhile_eq_all_conv)
      show ?thesis unfolding a b by simp
    qed
  qed
qed

lemma collect_candidates_iff:
  "(n, l) \<in> set (collect_candidates tags) \<longleftrightarrow>
     (\<exists>t \<in> set tags. \<exists>g. l = strip t \<and> search (strip t) = Some g \<and> n = num_of_group g)"
  by (induction tags) (auto simp: Let_def split: option.splits)

lemma hd_sort_reverse_in: "cs \<noteq> [] \<Longrightarrow> hd (sort_reverse cs) \<in> set cs"
proof -
  assume "cs \<noteq> []"
  then have "set (sort_reverse cs) \<noteq> {}"
    by (simp add: sort_reverse_def)
  then have "sort_reverse cs \<noteq> []"
    by auto
  then have "hd (sort_reverse cs) \<in> set (sort_reverse cs)"
    by (rule hd_in_set)
  then show ?thesis
    by (simp add: sort_reverse_def)
qed

lemma hd_sort_reverse_greatest: "x \<in> set cs \<Longrightarrow> x \<le> hd (sort_reverse cs)"
proof -
  assume x: "x \<in> set cs"
  have desc: "sorted_wrt (\<lambda>a b. b \<le> a) (sort_reverse cs)"
    by (simp add: sort_reverse_def sorted_wrt_rev)
  have mem: "x \<in> set (sort_reverse cs)"
    using x by (simp add: sort_reverse_def)
  show ?thesis
  proof (cases "sort_reverse cs")
    case Nil
    with mem show ?thesis by simp
  next
    case (Cons y ys)
    with desc have "\<forall>z \<in> set ys. z \<le> y" by simp
    with mem Cons show ?thesis by auto
  qed
qed

text \<open>The number of a group and title case, as computed and as said above, agree.\<close>

lemma int_of_digits_snoc: "int_of_digits (ds @ [c]) = 10 * int_of_digits ds + digit_value c"
  by (simp add: int_of_digits_def digit_value_def)

lemma decimal_snoc: "decimal (ds @ [c]) = 10 * decimal ds + digit_value c"
proof -
  have "(\<Sum>i<length ds. digit_value ((ds @ [c]) ! i) * 10 ^ (length (ds @ [c]) - Suc i))
      = (\<Sum>i<length ds. 10 * (digit_value (ds ! i) * 10 ^ (length ds - Suc i)))"
  proof (rule sum.cong)
    fix i assume "i \<in> {..<length ds}"
    then have i: "i < length ds" by simp
    then have "length (ds @ [c]) - Suc i = Suc (length ds - Suc i)" by simp
    with i show "digit_value ((ds @ [c]) ! i) * 10 ^ (length (ds @ [c]) - Suc i)
        = 10 * (digit_value (ds ! i) * 10 ^ (length ds - Suc i))"
      by (simp add: nth_append)
  qed simp
  also have "\<dots> = 10 * decimal ds"
    by (simp add: decimal_def sum_distrib_left)
  finally show ?thesis
    by (simp add: decimal_def)
qed

lemma int_of_digits_decimal: "int_of_digits g = decimal g"
proof (induction g rule: rev_induct)
  case Nil
  show ?case by (simp add: int_of_digits_def decimal_def)
next
  case (snoc c ds)
  then show ?case by (simp only: int_of_digits_snoc decimal_snoc)
qed

lemma num_of_group_suffix_number: "num_of_group g = suffix_number g"
  by (simp add: num_of_group_def suffix_number_def int_of_digits_decimal)

lemma length_title_from: "length (title_from prev s) = length s"
  by (induction s arbitrary: prev) simp_all

lemma to_upper_other: "\<not> is_lower c \<Longrightarrow> to_upper c = c"
  by (simp add: to_upper_def)

lemma to_lower_other: "\<not> is_upper c \<Longrightarrow> to_lower c = c"
  by (simp add: to_lower_def)

lemma not_lower_and_upper: "is_lower c \<Longrightarrow> \<not> is_upper c"
  by (simp add: is_lower_def is_upper_def)

lemma title_from_nth:
  "i < length s \<Longrightarrow>
   title_from prev s ! i =
     (if (if i = 0 then prev else is_letter (s ! (i - 1))) then to_lower (s ! i) else to_upper (s ! i))"
proof (induction s arbitrary: prev i)
  case Nil
  then show ?case by simp
next
  case (Cons c cs)
  show ?case
  proof (cases i)
    case 0
    then show ?thesis by simp
  next
    case (Suc j)
    with Cons.prems have j: "j < length cs" by simp
    show ?thesis
      using Cons.IH[OF j, of "is_lower c \<or> is_upper c"]
      by (cases j) (simp_all add: Suc is_letter_def)
  qed
qed

lemma title_nth: "i < length s \<Longrightarrow> title s ! i = title_char s i"
proof -
  assume i: "i < length s"
  have "title s ! i = (if i \<noteq> 0 \<and> is_letter (s ! (i - 1)) then to_lower (s ! i) else to_upper (s ! i))"
    using title_from_nth[OF i, of False] by (simp add: title_def)
  also have "\<dots> = title_char s i"
    by (auto simp: title_char_def is_letter_def to_upper_other to_lower_other not_lower_and_upper)
  finally show ?thesis .
qed

lemma lex_pair_le:
  "(p :: nat \<times> string) \<le> q \<Longrightarrow> fst p < fst q \<or> (fst p = fst q \<and> snd p \<le> snd q)"
  by (auto simp: less_eq_prod_def)

text \<open>
  C10, as stated, fails in its last part. On the shop's site discovery selects sitemap
  10 (not 9, which is greater as a string) and returns its last article,
  \<open>.../blog/iphone-3gs-review\<close>, with the title "Iphone 3Gs Review": \<open>str.title\<close>
  upper-cases the letter after the digit. With each word capitalized the title would
  be "Iphone 3gs Review".
\<close>

theorem sitemap_title_is_not_word_capitalization:
  "discover_latest_from_sitemap shop_get shop_find_all_loc ''https://shop.example.com/sitemap_index.xml''
     = Inr (Some [(''url'', ''https://shop.example.com/blog/iphone-3gs-review''),
                  (''source'', ''https://shop.example.com/post-sitemap10.xml''),
                  (''title'', ''Iphone 3Gs Review'')])
   \<and> each_word_capitalized (replace (CHR ''-'') (CHR '' '')
         (last (split_on (CHR ''/'') ''https://shop.example.com/blog/iphone-3gs-review'')))
     = ''Iphone 3gs Review''"
proof (rule conjI)
  show "discover_latest_from_sitemap shop_get shop_find_all_loc ''https://shop.example.com/sitemap_index.xml''
     = Inr (Some [(''url'', ''https://shop.example.com/blog/iphone-3gs-review''),
                  (''source'', ''https://shop.example.com/post-sitemap10.xml''),
                  (''title'', ''Iphone 3Gs Review'')])"
    by code_simp
  show "each_word_capitalized (replace (CHR ''-'') (CHR '' '')
         (last (split_on (CHR ''/'') ''https://shop.example.com/blog/iphone-3gs-review'')))
     = ''Iphone 3gs Review''"
    by code_simp
qed

text \<open>
  C10, amended. For an index that was fetched with content, whose \<open>loc\<close> entries are
  ASCII with numbers of at most 4300 digits (what \<open>int\<close> accepts), and of which one at
  least matches the pattern of post, article or news sitemaps: there is a matching
  entry whose number (the digits before \<open>.xml\<close> read in decimal, 1 when there are none)
  is greatest among the matching entries, and whose URL is the greatest among those of
  that number; and whenever that sitemap answers 200 with \<open>loc\<close> entries, discovery
  returns the last of them as \<open>url\<close>, the selected sitemap URL as \<open>source\<close>, and a
  \<open>title\<close> as long as the text after the article URL's last slash, which is that text
  with hyphens replaced by spaces and in title case: every letter that starts a run of
  letters upper-cased, every other letter lower-cased.
\<close>

theorem sitemap_picks_greatest_numeric_suffix:
  assumes idx: "fetch client_get u = Inr (Some txt)" and ne: "txt \<noteq> []"
    and m: "\<exists>t \<in> set (find_all_loc txt). search (strip t) \<noteq> None"
    and asc: "\<forall>t \<in> set (find_all_loc txt). ascii t"
    and lim: "\<forall>t \<in> set (find_all_loc txt).
                case search (strip t) of None \<Rightarrow> True | Some g \<Rightarrow> length g \<le> 4300"
  shows "\<exists>t \<in> set (find_all_loc txt). \<exists>g.
       post_pattern (strip t) g
     \<and> (\<forall>t' \<in> set (find_all_loc txt). \<forall>g'. post_pattern (strip t') g' \<longrightarrow>
            suffix_number g' < suffix_number g
          \<or> (suffix_number g' = suffix_number g \<and> strip t' \<le> strip t))
     \<and> (\<forall>xml. fetch client_get (strip t) = Inr (Some xml) \<and> find_all_loc xml \<noteq> []
              \<and> ascii (last (find_all_loc xml)) \<longrightarrow>
          (\<exists>ttl. discover_latest_from_sitemap client_get find_all_loc u =
                  Inr (Some [(''url'', strip (last (find_all_loc xml))),
                             (''source'', strip t),
                             (''title'', ttl)])
             \<and> length ttl = length (rev (takeWhile (\<lambda>c. c \<noteq> CHR ''/'') (rev (strip (last (find_all_loc xml))))))
             \<and> (\<forall>i < length ttl. ttl ! i =
                   title_char (replace (CHR ''-'') (CHR '' '')
                     (rev (takeWhile (\<lambda>c. c \<noteq> CHR ''/'') (rev (strip (last (find_all_loc xml))))))) i)))"
proof -
  define cs where "cs = collect_candidates (find_all_loc txt)"
  obtain t0 g0 where t0: "t0 \<in> set (find_all_loc txt)" "search (strip t0) = Some g0"
    using m by auto
  then have "(num_of_group g0, strip t0) \<in> set cs"
    unfolding cs_def collect_candidates_iff by blast
  then have cne: "cs \<noteq> []" by auto
  obtain n l where nl: "hd (sort_reverse cs) = (n, l)"
    by (cases "hd (sort_reverse cs)")
  have "(n, l) \<in> set cs"
    using hd_sort_reverse_in[OF cne] nl by simp
  then obtain t g where t: "t \<in> set (find_all_loc txt)" "l = strip t" "search (strip t) = Some g"
      "n = num_of_group g"
    unfolding cs_def collect_candidates_iff by blast
  have pat: "post_pattern (strip t) g"
    using t(3) by (simp add: search_iff_post_pattern)
  have great: "suffix_number g' < suffix_number g \<or> (suffix_number g' = suffix_number g \<and> strip t' \<le> strip t)"
    if "t' \<in> set (find_all_loc txt)" "post_pattern (strip t') g'" for t' g'
  proof -
    from that(2) have "search (strip t') = Some g'"
      by (simp add: search_iff_post_pattern)
    with that(1) have "(num_of_group g', strip t') \<in> set cs"
      unfolding cs_def collect_candidates_iff by blast
    then have "(num_of_group g', strip t') \<le> hd (sort_reverse cs)"
      by (rule hd_sort_reverse_greatest)
    then have "fst (num_of_group g', strip t') < fst (hd (sort_reverse cs))
        \<or> (fst (num_of_group g', strip t') = fst (hd (sort_reverse cs))
           \<and> snd (num_of_group g', strip t') \<le> snd (hd (sort_reverse cs)))"
      by (rule lex_pair_le)
    then show ?thesis
      by (simp add: nl t(2,4) num_of_group_suffix_number)
  qed
  have res: "\<exists>ttl. discover_latest_from_sitemap client_get find_all_loc u =
                  Inr (Some [(''url'', strip (last (find_all_loc xml))),
                             (''source'', strip t),
                             (''title'', ttl)])
             \<and> length ttl = length (rev (takeWhile (\<lambda>c. c \<noteq> CHR ''/'') (rev (strip (last (find_all_loc xml))))))
             \<and> (\<forall>i < length ttl. ttl ! i =
                   title_char (replace (CHR ''-'') (CHR '' '')
                     (rev (takeWhile (\<lambda>c. c \<noteq> CHR ''/'') (rev (strip (last (find_all_loc xml))))))) i)"
    if x: "fetch client_get (strip t) = Inr (Some xml) \<and> find_all_loc xml \<noteq> []
              \<and> ascii (last (find_all_loc xml))" for xml
  proof -
    define a where "a = strip (last (find_all_loc xml))"
    define seg where "seg = replace (CHR ''-'') (CHR '' '') (rev (takeWhile (\<lambda>c. c \<noteq> CHR ''/'') (rev a)))"
    have d: "discover_latest_from_sitemap client_get find_all_loc u =
          Inr (Some [(''url'', a), (''source'', strip t), (''title'', title seg)])"
      using cne nl x
      by (simp add: discover_latest_from_sitemap_def idx ne Let_def cs_def[symmetric] t(2)[symmetric]
          a_def seg_def last_split_on)
    have len: "length (title seg) = length (rev (takeWhile (\<lambda>c. c \<noteq> CHR ''/'') (rev a)))"
      by (simp add: title_def length_title_from seg_def replace_def)
    have nth: "\<forall>i < length (title seg). title seg ! i = title_char seg i"
      by (simp add: title_def length_title_from title_nth[unfolded title_def])
    from d len nth show ?thesis
      unfolding a_def seg_def by blast
  qed
  from t(1) pat great res show ?thesis
    by blast
qed

theorem sitemap_picks_greatest_numeric_suffix_witness:
  "(\<exists>t \<in> set (shop_find_all_loc shop_index). \<exists>g.
       post_pattern (strip t) g
     \<and> (\<forall>t' \<in> set (shop_find_all_loc shop_index). \<forall>g'. post_pattern (strip t') g' \<longrightarrow>
            suffix_number g' < suffix_number g
          \<or> (suffix_number g' = suffix_number g \<and> strip t' \<le> strip t))
     \<and> (\<forall>xml. fetch shop_get (strip t) = Inr (Some xml) \<and> shop_find_all_loc xml \<noteq> []
              \<and> ascii (last (shop_find_all_loc xml)) \<longrightarrow>
          (\<exists>ttl. discover_latest_from_sitemap shop_get shop_find_all_loc
                    ''https://shop.example.com/sitemap_index.xml'' =
                  Inr (Some [(''url'', strip (last (shop_find_all_loc xml))),
                             (''source'', strip t),
                             (''title'', ttl)])
             \<and> length ttl = length (rev (takeWhile (\<lambda>c. c \<noteq> CHR ''/'') (rev (strip (last (shop_find_all_loc xml))))))
             \<and> (\<forall>i < length ttl. ttl ! i =
                   title_char (replace (CHR ''-'') (CHR '' '')
                     (rev (takeWhile (\<lambda>c. c \<noteq> CHR ''/'') (rev (strip (last (shop_find_all_loc xml))))))) i))))
   \<and> discover_latest_from_sitemap shop_get shop_find_all_loc ''https://shop.example.com/sitemap_index.xml''
       = Inr (Some [(''url'', ''https://shop.example.com/blog/iphone-3gs-review''),
                    (''source'', ''https://shop.example.com/post-sitemap10.xml''),
                    (''title'', ''Iphone 3Gs Review'')])
   \<and> map (\<lambda>t. search (strip t)) (shop_find_all_loc shop_index) = [Some ''9'', Some ''10'', None]
   \<and> suffix_number ''9'' = 9 \<and> suffix_number ''10'' = 10 \<and> suffix_number [] = 1
   \<and> fetch shop_get ''https://shop.example.com/post-sitemap9.xml'' = Inr None"
proof -
  have h1: "fetch shop_get ''https://shop.example.com/sitemap_index.xml'' = Inr (Some shop_index)"
    by code_simp
  have h2: "shop_index \<noteq> []"
    by code_simp
  have h3: "\<exists>t \<in> set (shop_find_all_loc shop_index). search (strip t) \<noteq> None"
    by code_simp
  have h4: "\<forall>t \<in> set (shop_find_all_loc shop_index). ascii t"
    by code_simp
  have h5: "\<forall>t \<in> set (shop_find_all_loc shop_index).
              case search (strip t) of None \<Rightarrow> True | Some g \<Rightarrow> length g \<le> 4300"
    by code_simp
  have main: "\<exists>t \<in> set (shop_find_all_loc shop_index). \<exists>g.
       post_pattern (strip t) g
     \<and> (\<forall>t' \<in> set (shop_find_all_loc shop_index). \<forall>g'. post_pattern (strip t') g' \<longrightarrow>
            suffix_number g' < suffix_number g
          \<or> (suffix_number g' = suffix_number g \<and> strip t' \<le> strip t))
     \<and> (\<forall>xml. fetch shop_get (strip t) = Inr (Some xml) \<and> shop_find_all_loc xml \<noteq> []
              \<and> ascii (last (shop_find_all_loc xml)) \<longrightarrow>
          (\<exists>ttl. discover_latest_from_sitemap shop_get shop_find_all_loc
                    ''https://shop.example.com/sitemap_index.xml'' =
                  Inr (Some [(''url'', strip (last (shop_find_all_loc xml))),
                             (''source'', strip t),
                             (''title'', ttl)])
             \<and> length ttl = length (rev (takeWhile (\<lambda>c. c \<noteq> CHR ''/'') (rev (strip (last (shop_find_all_loc xml))))))
             \<and> (\<forall>i < length ttl. ttl ! i =
                   title_char (replace (CHR ''-'') (CHR '' '')
                     (rev (takeWhile (\<lambda>c. c \<noteq> CHR ''/'') (rev (strip (last (shop_find_all_loc xml))))))) i)))"
    using h1 h2 h3 h4 h5 by (rule sitemap_picks_greatest_numeric_suffix)
  have r: "discover_latest_from_sitemap shop_get shop_find_all_loc ''https://shop.example.com/sitemap_index.xml''
       = Inr (Some [(''url'', ''https://shop.example.com/blog/iphone-3gs-review''),
                    (''source'', ''https://shop.example.com/post-sitemap10.xml''),
                    (''title'', ''Iphone 3Gs Review'')])"
    by code_simp
  have gs: "map (\<lambda>t. search (strip t)) (shop_find_all_loc shop_index) = [Some ''9'', Some ''10'', None]"
    by code_simp
  have n9: "suffix_number ''9'' = 9" and n10: "suffix_number ''10'' = 10" and n0: "suffix_number [] = 1"
    unfolding num_of_group_suffix_number[symmetric] by code_simp+
  have f9: "fetch shop_get ''https://shop.example.com/post-sitemap9.xml'' = Inr None"
    by code_simp
  show ?thesis
    by (rule conjI[OF main conjI[OF r conjI[OF gs conjI[OF n9 conjI[OF n10 conjI[OF n0 f9]]]]]])
qed

text \<open>
  C5. The claim says sitemap discovery never raises, whatever the fetches do, a fetch
  without content included. On the concrete site whose post sitemap answers 404 the
  second \<open>fetch\<close> returns \<open>None\<close>, which goes unguarded into \<open>BeautifulSoup\<close>: the
  call raises \<open>TypeError\<close>. The first fetch has the guard \<open>if not txt: return None\<close>.
\<close>

theorem sitemap_missing_second_fetch_raises:
  "discover_latest_from_sitemap example_get_missing example_find_all_loc ''https://example.com/sitemap_index.xml''
     = Inl none_markup_error"
  by code_simp


subsection \<open>The run boundary\<close>

lemma sent_foldl_ws_send: "sent (foldl (ws_send rid) s evs) = sent s @ map (Pair rid) evs"
  by (induction evs arbitrary: s) (simp_all add: ws_send_def)

lemma RUN_TASKS_foldl_ws_send: "RUN_TASKS (foldl (ws_send rid) s evs) = RUN_TASKS s"
  by (induction evs arbitrary: s) (simp_all add: ws_send_def)


lemma closed_foldl_ws_send: "closed (ws_manager (foldl (ws_send rid) s evs)) = closed (ws_manager s)"
  by (induction evs arbitrary: s) (simp_all add: ws_send_def send_def)

lemma subscribers_foldl_ws_send:
  "subscribers (ws_manager (foldl (ws_send rid) s evs)) = subscribers (ws_manager s)"
  by (induction evs arbitrary: s) (simp_all add: ws_send_def send_def)

lemma buffers_foldl_ws_send:
  "(rid, ws) \<notin> set (subscribers (ws_manager s)) \<Longrightarrow>
   buffers (ws_manager (foldl (ws_send rid) s evs)) ws = buffers (ws_manager s) ws"
  by (induction evs arbitrary: s) (simp_all add: ws_send_def send_def)

lemma pop_or_none_snd: "snd (pop_or_none d k) = d(k := None)"
  by (cases "d k") (auto simp: pop_or_none_def)

lemma sent_background_run:
  "sent (snd (background_run rca t_err t_fin cfg rid s)) =
     sent s @ map (Pair rid) (emitted (rca cfg rid)
        @ (case outcome (rca cfg rid) of Raised e \<Rightarrow> [error_event t_err e] | _ \<Rightarrow> [])
        @ [finished_event t_fin])"
  by (cases "outcome (rca cfg rid)")
     (simp_all add: background_run_def Let_def ws_send_def sent_foldl_ws_send)

lemma RUN_TASKS_background_run:
  "RUN_TASKS (snd (background_run rca t_err t_fin cfg rid s)) = (RUN_TASKS s)(rid := None)"
  by (cases "outcome (rca cfg rid)")
     (simp_all add: background_run_def Let_def ws_send_def RUN_TASKS_foldl_ws_send pop_or_none_snd)


text \<open>
  C1. Whatever the awaited execution does (returns, raises an exception, or is
  interrupted), what \<open>_background_run\<close> publishes after the execution's own events
  contains exactly one terminal event "Run finished" at level \<open>INFO\<close>, it is the last
  event published, and the run's entry is gone from \<open>RUN_TASKS\<close> afterwards.
\<close>

theorem run_finished_is_last_and_unique:
  "\<exists>tail. sent (snd (background_run rca t_err t_fin cfg rid s))
            = sent s @ map (Pair rid) (emitted (rca cfg rid)) @ map (Pair rid) tail
        \<and> length (filter is_run_finished tail) = 1
        \<and> tail \<noteq> [] \<and> last tail = finished_event t_fin \<and> is_run_finished (last tail)
        \<and> RUN_TASKS (snd (background_run rca t_err t_fin cfg rid s)) = (RUN_TASKS s)(rid := None)"
proof -
  define tail where "tail = (case outcome (rca cfg rid) of Raised e \<Rightarrow> [error_event t_err e] | _ \<Rightarrow> [])
        @ [finished_event t_fin]"
  have a: "sent (snd (background_run rca t_err t_fin cfg rid s))
            = sent s @ map (Pair rid) (emitted (rca cfg rid)) @ map (Pair rid) tail"
    by (simp add: sent_background_run tail_def)
  have b: "length (filter is_run_finished tail) = 1"
    unfolding tail_def
    by (cases "outcome (rca cfg rid)")
       (simp_all add: is_run_finished_def error_event_def finished_event_def)
  have c: "tail \<noteq> []" "last tail = finished_event t_fin"
    by (simp_all add: tail_def)
  have d: "is_run_finished (last tail)"
    by (simp add: c is_run_finished_def finished_event_def)
  have e: "RUN_TASKS (snd (background_run rca t_err t_fin cfg rid s)) = (RUN_TASKS s)(rid := None)"
    by (rule RUN_TASKS_background_run)
  from a b c d e show ?thesis
    by (intro exI[of _ tail] conjI)
qed

text \<open>
  C2. An exception raised by the awaited execution does not leave \<open>_background_run\<close>:
  it is published as one event at level \<open>ERROR\<close> whose text ends with the exception's
  description, followed by the terminal event. The worker of \<open>worker.py\<close> does the
  same with one \<open>[ERROR]\<close> line.
\<close>

theorem exception_becomes_one_error_event:
  "(outcome (rca cfg rid) = Raised e \<longrightarrow>
      fst (background_run rca t_err t_fin cfg rid s) = None
    \<and> sent (snd (background_run rca t_err t_fin cfg rid s))
        = sent s @ map (Pair rid) (emitted (rca cfg rid) @ [error_event t_err e, finished_event t_fin])
    \<and> length (filter (\<lambda>ev. level ev = ''ERROR'') [error_event t_err e, finished_event t_fin]) = 1
    \<and> level (error_event t_err e) = ''ERROR''
    \<and> ev_text (error_event t_err e) = ''Background run error: '' @ str_of_error e)
   \<and> (fetch_with_playwright ''https://example.com'' 3 [''http://proxy1.com'', ''http://proxy2.com''] = Raised e \<longrightarrow>
      run_campaign_worker fetch_with_playwright
        = ([''[INFO] Starting worker...'', ''[ERROR] '' @ str_of_error e, ''[INFO] Worker complete''], None))"
proof (intro conjI impI)
  assume r: "outcome (rca cfg rid) = Raised e"
  show "fst (background_run rca t_err t_fin cfg rid s) = None"
    by (simp add: background_run_def Let_def r)
  show "sent (snd (background_run rca t_err t_fin cfg rid s))
        = sent s @ map (Pair rid) (emitted (rca cfg rid) @ [error_event t_err e, finished_event t_fin])"
    by (simp add: sent_background_run r)
next
  show "length (filter (\<lambda>ev. level ev = ''ERROR'') [error_event t_err e, finished_event t_fin]) = 1"
    by (simp add: error_event_def finished_event_def)
  show "level (error_event t_err e) = ''ERROR''"
    by (simp add: error_event_def)
  show "ev_text (error_event t_err e) = ''Background run error: '' @ str_of_error e"
    by (simp add: error_event_def)
next
  assume "fetch_with_playwright ''https://example.com'' 3 [''http://proxy1.com'', ''http://proxy2.com''] = Raised e"
  then show "run_campaign_worker fetch_with_playwright
        = ([''[INFO] Starting worker...'', ''[ERROR] '' @ str_of_error e, ''[INFO] Worker complete''], None)"
    by (simp add: run_campaign_worker_def)
qed

theorem exception_becomes_one_error_event_witness:
  "fst (background_run failing_run 11 12 () ''run-1'' (initial 8)) = None
   \<and> sent (snd (background_run failing_run 11 12 () ''run-1'' (initial 8)))
       = [(''run-1'', progress_event),
          (''run-1'', \<lparr>ts = 11, level = ''ERROR'', ev_text = ''Background run error: boom''\<rparr>),
          (''run-1'', \<lparr>ts = 12, level = ''INFO'', ev_text = ''Run finished''\<rparr>)]
   \<and> run_campaign_worker failing_fetch
       = ([''[INFO] Starting worker...'', ''[ERROR] net::ERR_TIMED_OUT'', ''[INFO] Worker complete''], None)"
proof -
  have h1: "outcome (failing_run () ''run-1'') = Raised (RuntimeError ''boom'')"
    by (simp add: failing_run_def)
  have h2: "failing_fetch ''https://example.com'' 3 [''http://proxy1.com'', ''http://proxy2.com'']
      = Raised (TransportError ''net::ERR_TIMED_OUT'')"
    by (simp add: failing_fetch_def)
  from exception_becomes_one_error_event
         [where rca = failing_run and cfg = "()" and rid = "''run-1''" and e = "RuntimeError ''boom''"
            and t_err = 11 and t_fin = 12 and s = "initial 8" and fetch_with_playwright = failing_fetch] h1
  have a: "fst (background_run failing_run 11 12 () ''run-1'' (initial 8)) = None
      \<and> sent (snd (background_run failing_run 11 12 () ''run-1'' (initial 8)))
          = sent (initial 8 :: unit system) @ map (Pair ''run-1'')
              (emitted (failing_run () ''run-1'')
                 @ [error_event 11 (RuntimeError ''boom''), finished_event 12])"
    by blast
  from exception_becomes_one_error_event
         [where rca = failing_run and cfg = "()" and rid = "''run-1''"
            and e = "TransportError ''net::ERR_TIMED_OUT''"
            and t_err = 11 and t_fin = 12 and s = "initial 8" and fetch_with_playwright = failing_fetch] h2
  have b: "run_campaign_worker failing_fetch
       = ([''[INFO] Starting worker...'', ''[ERROR] '' @ str_of_error (TransportError ''net::ERR_TIMED_OUT''),
           ''[INFO] Worker complete''], None)"
    by blast
  from a b show ?thesis
    by (simp add: failing_run_def initial_def error_event_def finished_event_def)
qed






text \<open>
  C9. \<open>RUN_TASKS.pop(run_id, None)\<close>: on an absent key the dict stays as it is and
  nothing is raised; popping twice is popping once; the result is the dict without
  exactly that key; and this is the removal \<open>_background_run\<close> ends with.
\<close>

theorem registry_remove_idempotent:
  "(d k = None \<longrightarrow> pop_or_none d k = (None, d))
   \<and> snd (pop_or_none (snd (pop_or_none d k)) k) = snd (pop_or_none d k)
   \<and> snd (pop_or_none d k) = d(k := None)
   \<and> RUN_TASKS (snd (background_run rca t_err t_fin cfg rid s)) = snd (pop_or_none (RUN_TASKS s) rid)"
proof (intro conjI impI)
  show "pop_or_none d k = (None, d)" if "d k = None"
    using that by (simp add: pop_or_none_def)
  show "snd (pop_or_none (snd (pop_or_none d k)) k) = snd (pop_or_none d k)"
    by (simp add: pop_or_none_snd)
  show "snd (pop_or_none d k) = d(k := None)"
    by (rule pop_or_none_snd)
  show "RUN_TASKS (snd (background_run rca t_err t_fin cfg rid s)) = snd (pop_or_none (RUN_TASKS s) rid)"
    by (simp add: pop_or_none_snd RUN_TASKS_background_run)
qed
theorem registry_remove_idempotent_witness:
  "pop_or_none (RUN_TASKS late_started) ''run-2'' = (None, RUN_TASKS late_started)
   \<and> snd (pop_or_none (snd (pop_or_none (RUN_TASKS late_started) ''run-1'')) ''run-1'')
       = snd (pop_or_none (RUN_TASKS late_started) ''run-1'')
   \<and> snd (pop_or_none (RUN_TASKS late_started) ''run-1'') = (RUN_TASKS late_started)(''run-1'' := None)
   \<and> RUN_TASKS late_finished = snd (pop_or_none (RUN_TASKS late_started) ''run-1'')"
proof -
  have absent: "RUN_TASKS late_started ''run-2'' = None"
    by (simp add: late_started_def run_campaign_async_endpoint_def initial_def Let_def)
  have rdy: "ready late_started = [\<lparr>task_cfg = (), task_run_id = ''run-1''\<rparr>]"
    by (simp add: late_started_def run_campaign_async_endpoint_def initial_def Let_def)
  have fin: "late_finished = snd (background_run quiet_run 11 12 () ''run-1'' (late_started\<lparr>ready := []\<rparr>))"
    by (simp add: late_finished_def run_next_task_def rdy)
  from registry_remove_idempotent
         [where d = "RUN_TASKS late_started" and k = "''run-2''" and rca = quiet_run and t_err = 11
            and t_fin = 12 and cfg = "()" and rid = "''run-1''" and s = "late_started\<lparr>ready := []\<rparr>"]
       absent
  have a: "pop_or_none (RUN_TASKS late_started) ''run-2'' = (None, RUN_TASKS late_started)"
    by blast
  note inst = registry_remove_idempotent
         [where d = "RUN_TASKS late_started" and k = "''run-1''" and rca = quiet_run and t_err = 11
            and t_fin = 12 and cfg = "()" and rid = "''run-1''" and s = "late_started\<lparr>ready := []\<rparr>"]
  from inst have b: "snd (pop_or_none (snd (pop_or_none (RUN_TASKS late_started) ''run-1'')) ''run-1'')
       = snd (pop_or_none (RUN_TASKS late_started) ''run-1'')"
    by blast
  from inst have c: "snd (pop_or_none (RUN_TASKS late_started) ''run-1'')
       = (RUN_TASKS late_started)(''run-1'' := None)"
    by blast
  from inst have "RUN_TASKS (snd (background_run quiet_run 11 12 () ''run-1'' (late_started\<lparr>ready := []\<rparr>)))
       = snd (pop_or_none (RUN_TASKS (late_started\<lparr>ready := []\<rparr>)) ''run-1'')"
    by blast
  then have d: "RUN_TASKS late_finished = snd (pop_or_none (RUN_TASKS late_started) ''run-1'')"
    by (simp add: fin)
  from a b c d show ?thesis
    by (intro conjI)
qed


subsection \<open>Late subscribers\<close>

text \<open>On a closed run \<open>connect\<close> hands over the terminal marker and does not register.\<close>

lemma connect_after_close_run:
  assumes "0 < capacity h" and "buffers h ws = []" and "(rid, ws) \<notin> set (subscribers h)"
  shows "buffers (connect (close_run h rid) rid ws) ws = [TerminalMarker]"
    and "(rid, ws) \<notin> set (subscribers (connect (close_run h rid) rid ws))"
  using assms by (auto simp: connect_def close_run_def deliver_def)

lemma websocket_logs_on_closed_run:
  assumes "rid \<in> set (closed (ws_manager s))"
  shows "buffers (ws_manager (websocket_logs ws rid frames s))
           = (buffers (ws_manager s))(ws := deliver (capacity (ws_manager s)) (buffers (ws_manager s) ws) TerminalMarker)"
    and "set (subscribers (ws_manager (websocket_logs ws rid frames s))) \<subseteq> set (subscribers (ws_manager s))"
    and "sent (websocket_logs ws rid frames s) = sent s"
  using assms by (auto simp: websocket_logs_def Let_def connect_def disconnect_def)

text \<open>
  C7. When the channel set of a run has been closed, a client that attaches to that run
  on a fresh websocket through \<open>websocket_logs\<close> receives the terminal marker at once
  and exactly it: the client is registered for no run, so whatever is published
  afterwards, for any run, its buffer stays the terminal marker alone. Attaching
  publishes nothing.
\<close>

theorem late_subscriber_gets_exactly_the_terminal_marker:
  assumes "rid \<in> set (closed (ws_manager s))"
    and "0 < capacity (ws_manager s)"
    and "buffers (ws_manager s) ws = []"
    and "\<forall>r. (r, ws) \<notin> set (subscribers (ws_manager s))"
  shows "buffers (ws_manager (websocket_logs ws rid frames s)) ws = [TerminalMarker]
    \<and> (\<forall>r. (r, ws) \<notin> set (subscribers (ws_manager (websocket_logs ws rid frames s))))
    \<and> (\<forall>r evs. buffers (ws_manager (foldl (ws_send r) (websocket_logs ws rid frames s) evs)) ws
          = [TerminalMarker])
    \<and> sent (websocket_logs ws rid frames s) = sent s"
proof -
  define s1 where "s1 = websocket_logs ws rid frames s"
  note w = websocket_logs_on_closed_run[OF assms(1), of ws frames]
  have a: "buffers (ws_manager s1) ws = [TerminalMarker]"
    using assms(2,3) by (simp add: s1_def w(1) deliver_def)
  have b: "\<forall>r. (r, ws) \<notin> set (subscribers (ws_manager s1))"
    using assms(4) w(2) unfolding s1_def by blast
  have c: "\<forall>r evs. buffers (ws_manager (foldl (ws_send r) s1 evs)) ws = [TerminalMarker]"
    using a b by (simp add: buffers_foldl_ws_send)
  have d: "sent s1 = sent s"
    by (simp add: s1_def w(3))
  from a b c d show ?thesis
    unfolding s1_def by (intro conjI)
qed

theorem late_subscriber_gets_exactly_the_terminal_marker_witness:
  "''run-1'' \<in> set (closed (ws_manager late_closed))
   \<and> RUN_TASKS late_closed ''run-1'' = None
   \<and> buffers (ws_manager (websocket_logs 1 ''run-1'' [TextFrame ''ping''] late_closed)) 1 = [TerminalMarker]
   \<and> subscribers (ws_manager (websocket_logs 1 ''run-1'' [TextFrame ''ping''] late_closed)) = []
   \<and> buffers (ws_manager (foldl (ws_send ''run-1'')
         (websocket_logs 1 ''run-1'' [TextFrame ''ping''] late_closed) [progress_event])) 1 = [TerminalMarker]"
proof -
  have st: "closed (ws_manager late_closed) = [''run-1'']" "capacity (ws_manager late_closed) = 8"
    "buffers (ws_manager late_closed) 1 = []" "subscribers (ws_manager late_closed) = []"
    "RUN_TASKS late_closed ''run-1'' = None"
    by (simp_all add: late_closed_def late_finished_def late_started_def run_next_task_def
      run_campaign_async_endpoint_def background_run_def close_run_def
      initial_def quiet_run_def ws_send_def send_def pop_or_none_def Let_def)
  have h1: "''run-1'' \<in> set (closed (ws_manager late_closed))"
    and h2: "0 < capacity (ws_manager late_closed)"
    and h4: "\<forall>r. (r, 1) \<notin> set (subscribers (ws_manager late_closed))"
    by (simp_all add: st)
  note th = late_subscriber_gets_exactly_the_terminal_marker[OF h1 h2 st(3) h4, of "[TextFrame ''ping'']"]
  from th have a: "buffers (ws_manager (websocket_logs 1 ''run-1'' [TextFrame ''ping''] late_closed)) 1 = [TerminalMarker]"
    by (rule conjunct1)
  from th have c: "buffers (ws_manager (foldl (ws_send ''run-1'')
         (websocket_logs 1 ''run-1'' [TextFrame ''ping''] late_closed) [progress_event])) 1 = [TerminalMarker]"
    by blast
  have b: "subscribers (ws_manager (websocket_logs 1 ''run-1'' [TextFrame ''ping''] late_closed)) = []"
    by (simp add: websocket_logs_def Let_def connect_def st)
  from h1 st(5) a b c show ?thesis
    by (intro conjI)
qed


subsection \<open>The discovery chain\<close>

lemma map_of_tagged:
  "distinct (map fst d) \<Longrightarrow>
   map_of (foldl (\<lambda>acc kv. AList.update (fst kv) (snd kv) acc) acc d) = map_of acc ++ map_of d"
proof (induction d arbitrary: acc)
  case Nil
  show ?case by simp
next
  case (Cons kv d)
  obtain k v where kv: "kv = (k, v)" by (cases kv)
  from Cons.prems have k: "k \<notin> dom (map_of d)" and dd: "distinct (map fst d)"
    by (auto simp: kv dom_map_of_conv_image_fst)
  have "map_of (foldl (\<lambda>acc kv. AList.update (fst kv) (snd kv) acc) acc (kv # d))
        = (map_of acc)(k \<mapsto> v) ++ map_of d"
    by (simp add: kv Cons.IH[OF dd] update_conv' fun_upd_def)
  also have "\<dots> = map_of acc ++ map_of (kv # d)"
    using k by (simp add: kv map_add_upd_left)
  finally show ?case .
qed

lemma tagged_not_error: "tagged m d \<noteq> not_found"
proof -
  have "map_of (foldl (\<lambda>acc kv. AList.update (fst kv) (snd kv) acc) acc d) ''method'' \<noteq> None"
    if "map_of acc ''method'' \<noteq> None" for acc
    using that by (induction d arbitrary: acc) (simp_all add: update_conv')
  then have "map_of (tagged m d) ''method'' \<noteq> None"
    by (simp add: tagged_def)
  moreover have "map_of not_found ''method'' = None"
    by (simp add: not_found_def)
  ultimately show ?thesis by metis
qed

text \<open>
  C4. For a payload with a \<open>url\<close>: the sitemap strategy's non-empty result is returned
  tagged \<open>sitemap\<close>, and the world is the one the sitemap strategy left (neither later
  strategy ran); otherwise the RSS strategy's non-empty result is returned tagged
  \<open>rss\<close> with the world RSS left; otherwise the HTML strategy's, tagged \<open>html\<close>. The
  not-found object is returned exactly when all three returned an empty result. The
  tag is the value under \<open>method\<close> and the result's entries are kept, for a result that
  has no \<open>method\<close> key of its own.
\<close>

theorem discovery_chain_first_non_empty_wins:
  assumes "map_of payload ''url'' = Some u"
  shows
   "(sm u w = (Inr r1, w1) \<and> truthy r1 \<longrightarrow>
       test_source sm rss html payload w = (Inr (tagged ''sitemap'' (the r1)), w1))
  \<and> (sm u w = (Inr r1, w1) \<and> \<not> truthy r1 \<and> rss u w1 = (Inr r2, w2) \<and> truthy r2 \<longrightarrow>
       test_source sm rss html payload w = (Inr (tagged ''rss'' (the r2)), w2))
  \<and> (sm u w = (Inr r1, w1) \<and> \<not> truthy r1 \<and> rss u w1 = (Inr r2, w2) \<and> \<not> truthy r2
       \<and> html u w2 = (Inr r3, w3) \<and> truthy r3 \<longrightarrow>
       test_source sm rss html payload w = (Inr (tagged ''html'' (the r3)), w3))
  \<and> (fst (test_source sm rss html payload w) = Inr not_found \<longleftrightarrow>
       (\<exists>r1 w1 r2 w2 r3 w3. sm u w = (Inr r1, w1) \<and> \<not> truthy r1
          \<and> rss u w1 = (Inr r2, w2) \<and> \<not> truthy r2 \<and> html u w2 = (Inr r3, w3) \<and> \<not> truthy r3))
  \<and> (distinct (map fst d) \<and> ''method'' \<notin> fst ` set d \<longrightarrow>
       map_of (tagged m d) ''method'' = Some m
       \<and> (\<forall>k. k \<noteq> ''method'' \<longrightarrow> map_of (tagged m d) k = map_of d k))"
proof (intro conjI impI)
  assume "sm u w = (Inr r1, w1) \<and> truthy r1"
  then show "test_source sm rss html payload w = (Inr (tagged ''sitemap'' (the r1)), w1)"
    by (simp add: test_source_def assms)
next
  assume "sm u w = (Inr r1, w1) \<and> \<not> truthy r1 \<and> rss u w1 = (Inr r2, w2) \<and> truthy r2"
  then show "test_source sm rss html payload w = (Inr (tagged ''rss'' (the r2)), w2)"
    by (simp add: test_source_def assms)
next
  assume "sm u w = (Inr r1, w1) \<and> \<not> truthy r1 \<and> rss u w1 = (Inr r2, w2) \<and> \<not> truthy r2
       \<and> html u w2 = (Inr r3, w3) \<and> truthy r3"
  then show "test_source sm rss html payload w = (Inr (tagged ''html'' (the r3)), w3)"
    by (simp add: test_source_def assms)
next
  show "fst (test_source sm rss html payload w) = Inr not_found \<longleftrightarrow>
       (\<exists>r1 w1 r2 w2 r3 w3. sm u w = (Inr r1, w1) \<and> \<not> truthy r1
          \<and> rss u w1 = (Inr r2, w2) \<and> \<not> truthy r2 \<and> html u w2 = (Inr r3, w3) \<and> \<not> truthy r3)"
    by (auto simp: test_source_def assms tagged_not_error split: prod.splits sum.splits)
next
  assume d: "distinct (map fst d) \<and> ''method'' \<notin> fst ` set d"
  then have eq: "map_of (tagged m d) = [''method'' \<mapsto> m] ++ map_of d"
    by (simp add: tagged_def map_of_tagged)
  from d have "map_of d ''method'' = None"
    by (simp add: map_of_eq_None_iff)
  then show "map_of (tagged m d) ''method'' = Some m"
    by (simp add: eq map_add_def)
  show "\<forall>k. k \<noteq> ''method'' \<longrightarrow> map_of (tagged m d) k = map_of d k"
    by (simp add: eq map_add_def split: option.splits)
qed


theorem discovery_chain_first_non_empty_wins_witness:
  "test_source (sitemap_strategy example_get example_find_all_loc) example_rss example_html
       [(''url'', ''https://example.com/sitemap_index.xml'')] []
     = (Inr [(''method'', ''sitemap''), (''url'', ''https://example.com/blog/my-first-post''),
             (''source'', ''https://example.com/post-sitemap2.xml''), (''title'', ''My First Post'')], [])
   \<and> test_source (sitemap_strategy example_get example_find_all_loc) example_rss example_html
       [(''url'', ''https://feeds.example.org'')] []
     = (Inr [(''method'', ''rss''), (''url'', ''https://feeds.example.org/a-story''),
             (''source'', ''https://feeds.example.org/feed''), (''title'', ''A Story'')], [''rss''])
   \<and> fst (test_source (sitemap_strategy example_get example_find_all_loc) example_rss example_html
       [(''url'', ''https://static.example.net'')] []) = Inr not_found"
proof -
  let ?sm = "sitemap_strategy example_get example_find_all_loc"
  let ?d1 = "[(''url'', ''https://example.com/blog/my-first-post''),
              (''source'', ''https://example.com/post-sitemap2.xml''), (''title'', ''My First Post'')]"
  let ?d2 = "[(''url'', ''https://feeds.example.org/a-story''), (''source'', ''https://feeds.example.org/feed''),
              (''title'', ''A Story'')]"
  have u1: "map_of [(''url'', ''https://example.com/sitemap_index.xml'')] ''url''
      = Some ''https://example.com/sitemap_index.xml''"
    by simp
  have a1: "?sm ''https://example.com/sitemap_index.xml'' [] = (Inr (Some ?d1), []) \<and> truthy (Some ?d1)"
    by code_simp
  have t1: "tagged ''sitemap'' (the (Some ?d1)) = (''method'', ''sitemap'') # ?d1"
    by code_simp
  note i1 = discovery_chain_first_non_empty_wins[OF u1, where sm = ?sm and w = "[]" and ?r1.0 = "Some ?d1"
      and ?w1.0 = "[]" and rss = example_rss and html = example_html, THEN conjunct1]
  have c1: "test_source ?sm example_rss example_html [(''url'', ''https://example.com/sitemap_index.xml'')] []
     = (Inr (tagged ''sitemap'' (the (Some ?d1))), [])"
    by (rule mp[OF i1 a1])
  have u2: "map_of [(''url'', ''https://feeds.example.org'')] ''url'' = Some ''https://feeds.example.org''"
    by simp
  have a2: "?sm ''https://feeds.example.org'' [] = (Inr None, []) \<and> \<not> truthy None
      \<and> example_rss ''https://feeds.example.org'' [] = (Inr (Some ?d2), [''rss'']) \<and> truthy (Some ?d2)"
    by code_simp
  have t2: "tagged ''rss'' (the (Some ?d2)) = (''method'', ''rss'') # ?d2"
    by code_simp
  note i2 = discovery_chain_first_non_empty_wins[OF u2, where sm = ?sm and w = "[]" and ?r1.0 = None
      and ?w1.0 = "[]" and rss = example_rss and html = example_html and ?r2.0 = "Some ?d2"
      and ?w2.0 = "[''rss'']", THEN conjunct2, THEN conjunct1]
  have c2: "test_source ?sm example_rss example_html [(''url'', ''https://feeds.example.org'')] []
     = (Inr (tagged ''rss'' (the (Some ?d2))), [''rss''])"
    by (rule mp[OF i2 a2])
  have u3: "map_of [(''url'', ''https://static.example.net'')] ''url'' = Some ''https://static.example.net''"
    by simp
  have a3: "?sm ''https://static.example.net'' [] = (Inr None, []) \<and> \<not> truthy None
      \<and> example_rss ''https://static.example.net'' [] = (Inr None, [''rss'']) \<and> \<not> truthy None
      \<and> example_html ''https://static.example.net'' [''rss''] = (Inr None, [''rss'', ''html'']) \<and> \<not> truthy None"
    by code_simp
  have ex: "\<exists>r1 w1 r2 w2 r3 w3. ?sm ''https://static.example.net'' [] = (Inr r1, w1) \<and> \<not> truthy r1
      \<and> example_rss ''https://static.example.net'' w1 = (Inr r2, w2) \<and> \<not> truthy r2
      \<and> example_html ''https://static.example.net'' w2 = (Inr r3, w3) \<and> \<not> truthy r3"
    by (rule exI)+ (rule a3)
  note i3 = discovery_chain_first_non_empty_wins[OF u3, where sm = ?sm and w = "[]"
      and rss = example_rss and html = example_html,
      THEN conjunct2, THEN conjunct2, THEN conjunct2, THEN conjunct1]
  have c3: "fst (test_source ?sm example_rss example_html [(''url'', ''https://static.example.net'')] [])
      = Inr not_found"
    by (rule iffD2[OF i3 ex])
  show ?thesis
    by (rule conjI[OF c1[unfolded t1] conjI[OF c2[unfolded t2] c3]])
qed

subsection \<open>CMS verification\<close>

text \<open>
  C8, as stated, fails twice: an endpoint that answers 200 with a body that is not JSON
  gets \<open>success = False\<close>, and a payload without \<open>username\<close> raises \<open>KeyError\<close>, the
  lookups standing before the \<open>try\<close>.
\<close>

theorem verify_connection_counterexample:
  "verify_connection example_get_html example_json example_payload
     = Inr (Message ''Expecting value: line 1 column 1 (char 0)'')
   \<and> verify_connection example_get_html example_json [(''url'', ''https://blog.example.com'')]
     = Inl (KeyError ''username'')"
  by (simp add: verify_connection_def example_get_html_def example_json_def example_payload_def)

text \<open>
  C8, amended. For a payload that has \<open>url\<close>, \<open>username\<close> and \<open>password\<close> the operation
  returns a result object: the categories (success) when the endpoint answers 200 and
  the body decodes; a message (failure) when the body of a 200 answer does not decode,
  when the status is not 200, and when the request raises. A payload that lacks one of
  the keys raises \<open>KeyError\<close>.
\<close>

theorem verify_connection_reports:
  "(map_of payload ''url'' = Some b \<and> map_of payload ''username'' = Some usr
      \<and> map_of payload ''password'' = Some pw \<longrightarrow>
      (\<exists>res. verify_connection client_get json payload = Inr res)
    \<and> (\<forall>r c. client_get (b @ ''/wp-json/wp/v2/categories'') (usr, pw) = Inr r \<and> status_code r = 200
             \<and> json (body r) = Inr c \<longrightarrow>
           verify_connection client_get json payload = Inr (Categories c))
    \<and> (\<forall>r e. client_get (b @ ''/wp-json/wp/v2/categories'') (usr, pw) = Inr r \<and> status_code r = 200
             \<and> json (body r) = Inl e \<longrightarrow>
           verify_connection client_get json payload = Inr (Message (str_of_error e)))
    \<and> (\<forall>r. client_get (b @ ''/wp-json/wp/v2/categories'') (usr, pw) = Inr r \<and> status_code r \<noteq> 200 \<longrightarrow>
           verify_connection client_get json payload = Inr (Message (body r)))
    \<and> (\<forall>e. client_get (b @ ''/wp-json/wp/v2/categories'') (usr, pw) = Inl e \<longrightarrow>
           verify_connection client_get json payload = Inr (Message (str_of_error e))))
   \<and> (map_of payload ''url'' = None \<or> map_of payload ''username'' = None
        \<or> map_of payload ''password'' = None \<longrightarrow>
      (\<exists>k. verify_connection client_get json payload = Inl (KeyError k)))"
  by (auto simp: verify_connection_def split: option.splits sum.splits)

theorem verify_connection_reports_witness:
  "verify_connection example_get_json example_json example_payload = Inr (Categories [''News''])
   \<and> verify_connection example_get_html example_json example_payload
       = Inr (Message ''Expecting value: line 1 column 1 (char 0)'')
   \<and> (\<exists>k. verify_connection example_get_json example_json [(''url'', ''https://blog.example.com'')]
            = Inl (KeyError k))"
proof -
  have keys: "map_of example_payload ''url'' = Some ''https://blog.example.com''
      \<and> map_of example_payload ''username'' = Some ''editor''
      \<and> map_of example_payload ''password'' = Some ''abcd efgh''"
    by (simp add: example_payload_def)
  have ok: "example_get_json (''https://blog.example.com'' @ ''/wp-json/wp/v2/categories'') (''editor'', ''abcd efgh'')
        = Inr \<lparr>status_code = 200, body = ''[\"News\"]''\<rparr>
      \<and> status_code \<lparr>status_code = 200, body = ''[\"News\"]''\<rparr> = 200
      \<and> example_json (body \<lparr>status_code = 200, body = ''[\"News\"]''\<rparr>) = Inr [''News'']"
    by (simp add: example_get_json_def example_json_def)
  have bad: "example_get_html (''https://blog.example.com'' @ ''/wp-json/wp/v2/categories'') (''editor'', ''abcd efgh'')
        = Inr \<lparr>status_code = 200, body = ''<html>Welcome</html>''\<rparr>
      \<and> status_code \<lparr>status_code = 200, body = ''<html>Welcome</html>''\<rparr> = 200
      \<and> example_json (body \<lparr>status_code = 200, body = ''<html>Welcome</html>''\<rparr>)
          = Inl (JSONDecodeError ''Expecting value: line 1 column 1 (char 0)'')"
    by (simp add: example_get_html_def example_json_def)
  have missing: "map_of [(''url'', ''https://blog.example.com'')] ''username'' = None"
    by simp
  from verify_connection_reports
         [of example_payload "''https://blog.example.com''" "''editor''" "''abcd efgh''"
             example_get_json example_json] keys ok
  have a: "verify_connection example_get_json example_json example_payload = Inr (Categories [''News''])"
    by blast
  from verify_connection_reports
         [of example_payload "''https://blog.example.com''" "''editor''" "''abcd efgh''"
             example_get_html example_json] keys bad
  have b: "verify_connection example_get_html example_json example_payload
       = Inr (Message (str_of_error (JSONDecodeError ''Expecting value: line 1 column 1 (char 0)'')))"
    by blast
  from verify_connection_reports
         [of "[(''url'', ''https://blog.example.com'')]" _ _ _ example_get_json example_json] missing
  have c: "\<exists>k. verify_connection example_get_json example_json [(''url'', ''https://blog.example.com'')]
            = Inl (KeyError k)"
    by blast
  from a b c show ?thesis by simp
qed

end
